theory Spec2Isabelle
  imports Complex_Main
begin

section \<open>Numeric values\<close>

text \<open>
  The arrays of \<^verbatim>\<open>localize_inloc.py\<close> hold float64 values. A value is modelled as an exact
  real or one of the three special values of IEEE arithmetic. Rounding is not modelled:
  arithmetic on finite values is exact. Division by zero and not-a-number follow numpy
  (a warning, never an exception). There is one zero: the denominators of the source
  are array dimensions minus one, never a negative zero.
\<close>

datatype fl = NaN | NInf | PInf | Fin real

fun isnan :: "fl \<Rightarrow> bool" where
  "isnan NaN = True"
| "isnan _ = False"

fun fl_neg :: "fl \<Rightarrow> fl" where
  "fl_neg NaN = NaN"
| "fl_neg NInf = PInf"
| "fl_neg PInf = NInf"
| "fl_neg (Fin a) = Fin (- a)"

fun fl_add :: "fl \<Rightarrow> fl \<Rightarrow> fl" where
  "fl_add (Fin a) (Fin b) = Fin (a + b)"
| "fl_add NaN _ = NaN"
| "fl_add _ NaN = NaN"
| "fl_add PInf NInf = NaN"
| "fl_add NInf PInf = NaN"
| "fl_add PInf _ = PInf"
| "fl_add _ PInf = PInf"
| "fl_add NInf _ = NInf"
| "fl_add _ NInf = NInf"

definition fl_sub :: "fl \<Rightarrow> fl \<Rightarrow> fl" where
  "fl_sub a b = fl_add a (fl_neg b)"

fun fl_mul :: "fl \<Rightarrow> fl \<Rightarrow> fl" where
  "fl_mul (Fin a) (Fin b) = Fin (a * b)"
| "fl_mul NaN _ = NaN"
| "fl_mul _ NaN = NaN"
| "fl_mul PInf (Fin b) = (if b = 0 then NaN else if 0 < b then PInf else NInf)"
| "fl_mul NInf (Fin b) = (if b = 0 then NaN else if 0 < b then NInf else PInf)"
| "fl_mul (Fin a) PInf = (if a = 0 then NaN else if 0 < a then PInf else NInf)"
| "fl_mul (Fin a) NInf = (if a = 0 then NaN else if 0 < a then NInf else PInf)"
| "fl_mul PInf PInf = PInf"
| "fl_mul NInf NInf = PInf"
| "fl_mul PInf NInf = NInf"
| "fl_mul NInf PInf = NInf"

fun fl_div :: "fl \<Rightarrow> fl \<Rightarrow> fl" where
  "fl_div (Fin a) (Fin b) =
     (if b \<noteq> 0 then Fin (a / b) else if a = 0 then NaN else if 0 < a then PInf else NInf)"
| "fl_div NaN _ = NaN"
| "fl_div _ NaN = NaN"
| "fl_div PInf (Fin b) = (if 0 \<le> b then PInf else NInf)"
| "fl_div NInf (Fin b) = (if 0 \<le> b then NInf else PInf)"
| "fl_div (Fin a) PInf = Fin 0"
| "fl_div (Fin a) NInf = Fin 0"
| "fl_div PInf PInf = NaN"
| "fl_div PInf NInf = NaN"
| "fl_div NInf PInf = NaN"
| "fl_div NInf NInf = NaN"

text \<open>Comparison \<^verbatim>\<open>a < b\<close>: false as soon as one side is not-a-number.\<close>

fun fl_lt :: "fl \<Rightarrow> fl \<Rightarrow> bool" where
  "fl_lt (Fin a) (Fin b) = (a < b)"
| "fl_lt NaN _ = False"
| "fl_lt _ NaN = False"
| "fl_lt NInf NInf = False"
| "fl_lt NInf _ = True"
| "fl_lt _ NInf = False"
| "fl_lt PInf _ = False"
| "fl_lt _ PInf = True"

section \<open>Exceptions\<close>

text \<open>
  Every raise of the source is a value: the built-in exceptions the source can raise by
  itself, and \<open>Raised\<close> for whatever an external collaborator (matcher, file loader,
  sampler, pose solver) raises.
\<close>

datatype error =
    AssertionError
  | FileNotFoundError
  | IndexError
  | KeyError
  | ValueError
  | AttributeError
  | Raised string

section \<open>interpolate\_scan\<close>

text \<open>
  A depth scan (the field \<^verbatim>\<open>XYZcut\<close>) is an array of shape \<open>(h, w, 3)\<close>: \<open>pix s y x ch\<close>
  is channel \<open>ch\<close> of the pixel in row \<open>y\<close> and column \<open>x\<close>. The two calls of torch's
  \<^verbatim>\<open>grid_sample\<close> (bilinear and nearest, \<^verbatim>\<open>align_corners=True\<close>) are external: the sampler
  is a parameter giving, for a mode, a scan, a channel and a normalised location, the
  sampled value.
\<close>

record scan =
  height :: nat
  width :: nat
  pix :: "nat \<Rightarrow> nat \<Rightarrow> nat \<Rightarrow> fl"

datatype mode = Bilinear | Nearest

type_synonym kp2 = "fl \<times> fl"
type_synonym sampler = "mode \<Rightarrow> scan \<Rightarrow> nat \<Rightarrow> kp2 \<Rightarrow> fl"

text \<open>\<^verbatim>\<open>kp / np.array([[w-1, h-1]]) * 2 - 1\<close>, for one coordinate.\<close>

definition norm_coord :: "fl \<Rightarrow> nat \<Rightarrow> fl" where
  "norm_coord x d = fl_sub (fl_mul (fl_div x (Fin (of_int (int d - 1)))) (Fin 2)) (Fin 1)"

definition normalize_kp :: "scan \<Rightarrow> kp2 \<Rightarrow> kp2" where
  "normalize_kp s p = (norm_coord (fst p) (width s), norm_coord (snd p) (height s))"

text \<open>\<^verbatim>\<open>np.all(kp > -1) and np.all(kp < 1)\<close>\<close>

definition in_bounds :: "kp2 list \<Rightarrow> bool" where
  "in_bounds kpn \<longleftrightarrow>
     list_all (\<lambda>p. fl_lt (Fin (- 1)) (fst p) \<and> fl_lt (Fin (- 1)) (snd p)) kpn \<and>
     list_all (\<lambda>p. fl_lt (fst p) (Fin 1) \<and> fl_lt (snd p) (Fin 1)) kpn"

text \<open>\<^verbatim>\<open>torch.where(torch.isnan(interp_lin), interp_nn, interp_lin)\<close>, for one entry.\<close>

definition where_nan :: "fl \<Rightarrow> fl \<Rightarrow> fl" where
  "where_nan lin nn = (if isnan lin then nn else lin)"

text \<open>
  The sampled arrays have shape \<open>(3, N)\<close> (\<^verbatim>\<open>[0, :, 0]\<close>): one row per channel. \<open>valid\<close>
  is \<^verbatim>\<open>~torch.any(torch.isnan(interp), 0)\<close> and \<open>kp3d\<close> is the transpose, of shape
  \<open>(N, 3)\<close>.
\<close>

definition grid_rows :: "sampler \<Rightarrow> mode \<Rightarrow> scan \<Rightarrow> kp2 list \<Rightarrow> fl list list" where
  "grid_rows gs m s kpn = map (\<lambda>ch. map (gs m s ch) kpn) [0..<3]"

definition interpolate_scan ::
  "sampler \<Rightarrow> scan \<Rightarrow> kp2 list \<Rightarrow> error + (fl list list \<times> bool list)" where
  "interpolate_scan gs s kp =
     (let kpn = map (normalize_kp s) kp in
      if \<not> in_bounds kpn then Inl AssertionError
      else
        let interp_lin = grid_rows gs Bilinear s kpn;
            interp_nn = grid_rows gs Nearest s kpn;
            interp = map2 (map2 where_nan) interp_lin interp_nn;
            valid = map (\<lambda>j. \<not> list_ex (\<lambda>row. isnan (row ! j)) interp) [0..<length kpn];
            kp3d = map (\<lambda>j. map (\<lambda>row. row ! j) interp) [0..<length kpn]
        in Inr (kp3d, valid))"

section \<open>The external world\<close>

text \<open>
  Everything the source reads from outside is a field of one record: the images
  (\<^verbatim>\<open>cv2.imread\<close>, \<open>None\<close> for an unreadable file, else height and width), the scan files
  (\<^verbatim>\<open>loadmat(path)["XYZcut"]\<close>), the text files (their lines, \<open>None\<close> for an absent file),
  the numeric row parser \<^verbatim>\<open>np.fromstring(line, sep=' ')\<close>, torch's sampler, the feature and
  match stores (h5py), \<^verbatim>\<open>names_to_pair\<close> of \<^verbatim>\<open>utils/parsers.py\<close>, the on-the-fly matcher with
  its latency (\<^verbatim>\<open>time.time() - t0\<close>), and the pose solver
  \<^verbatim>\<open>pycolmap.absolute_pose_estimation\<close>. A collaborator that can raise returns a sum.
\<close>

record camera =
  model :: string
  cam_width :: nat
  cam_height :: nat
  params :: "fl list"

text \<open>
  The dictionary the solver returns: \<^verbatim>\<open>ret['qvec']\<close> and \<^verbatim>\<open>ret['tvec']\<close> raise KeyError when
  the key is absent. \<open>cfg\<close> is the entry the callers add (\<^verbatim>\<open>ret['cfg'] = cfg\<close>).
\<close>

record pnp_ret =
  qvec :: "fl list option"
  tvec :: "fl list option"
  inliers :: "bool list"
  cfg :: "camera option"

record env =
  imread :: "string \<Rightarrow> (nat \<times> nat) option"
  loadmat :: "string \<Rightarrow> error + scan"
  files :: "string \<Rightarrow> string list option"
  fromstring :: "string \<Rightarrow> error + fl list"
  grid_sample :: sampler
  feature_file :: "string \<Rightarrow> kp2 list option"
  match_file :: "string \<Rightarrow> int list option"
  names_to_pair :: "string \<Rightarrow> string \<Rightarrow> string"
  matcher :: "string \<Rightarrow> string \<Rightarrow> error + (kp2 \<times> kp2) list"
  elapsed :: "string \<Rightarrow> string \<Rightarrow> fl"
  solver :: "kp2 list \<Rightarrow> fl list list \<Rightarrow> camera \<Rightarrow> fl \<Rightarrow> error + pnp_ret"

section \<open>Strings and paths\<close>

text \<open>\<^verbatim>\<open>s.split(c)\<close>: never empty.\<close>

fun split_on :: "char \<Rightarrow> string \<Rightarrow> string list" where
  "split_on c [] = [[]]"
| "split_on c (x # xs) =
     (if x = c then [] # split_on c xs
      else (case split_on c xs of [] \<Rightarrow> [[x]] | w # ws \<Rightarrow> (x # w) # ws))"

text \<open>\<^verbatim>\<open>os.path.join(a, b)\<close>; \<^verbatim>\<open>Path(a, b)\<close> is modelled by the same string.\<close>

definition path_join :: "string \<Rightarrow> string \<Rightarrow> string" where
  "path_join a b =
     (if b \<noteq> [] \<and> hd b = CHR ''/'' then b
      else if a = [] \<or> last a = CHR ''/'' then a @ b
      else a @ ''/'' @ b)"

text \<open>\<^verbatim>\<open>q.split("/")[-1]\<close>\<close>

definition basename :: "string \<Rightarrow> string" where
  "basename q = last (split_on CHR ''/'' q)"

section \<open>get\_scan\_pose\<close>

text \<open>
  \<^verbatim>\<open>np.fromstring(raw_lines[k], sep=' ')\<close> for the listed \<open>k\<close>, in order: an index beyond the
  file raises IndexError, and what the parser raises propagates.
\<close>

fun parse_rows ::
  "(string \<Rightarrow> error + fl list) \<Rightarrow> string list \<Rightarrow> nat list \<Rightarrow> error + fl list list" where
  "parse_rows fs raw_lines [] = Inr []"
| "parse_rows fs raw_lines (k # ks) =
     (if length raw_lines \<le> k then Inl IndexError
      else (case fs (raw_lines ! k) of
              Inl e \<Rightarrow> Inl e
            | Inr row \<Rightarrow>
                (case parse_rows fs raw_lines ks of
                   Inl e \<Rightarrow> Inl e
                 | Inr rows \<Rightarrow> Inr (row # rows))))"

text \<open>
  \<^verbatim>\<open>np.array([...])\<close> of the rows: a two-dimensional array when the rows have one length,
  ValueError (inhomogeneous shape) otherwise.
\<close>

definition np_array :: "fl list list \<Rightarrow> error + fl list list" where
  "np_array rows =
     (if list_all (\<lambda>row. length row = length (hd rows)) rows then Inr rows
      else Inl ValueError)"

definition trans_path :: "string \<Rightarrow> string \<Rightarrow> string \<Rightarrow> string \<Rightarrow> string" where
  "trans_path dataset_dir floor_name building_name scan_id =
     path_join (path_join (path_join dataset_dir ''database/alignments'') floor_name)
       (''transformations/'' @ building_name @ ''_trans_'' @ scan_id @ ''.txt'')"

definition get_scan_pose :: "env \<Rightarrow> string \<Rightarrow> string \<Rightarrow> error + fl list list" where
  "get_scan_pose e dataset_dir rpath =
     (let split_image_rpath = split_on CHR ''/'' rpath;
          n = length split_image_rpath
      in if n < 3 then Inl IndexError
         else
           let floor_name = split_image_rpath ! (n - 3);
               scan_id = split_image_rpath ! (n - 2);
               image_name = split_image_rpath ! (n - 1);
               building_name = take 3 image_name;
               path = trans_path dataset_dir floor_name building_name scan_id
           in (case files e path of
                 None \<Rightarrow> Inl FileNotFoundError
               | Some raw_lines \<Rightarrow>
                   (case parse_rows (fromstring e) raw_lines [7, 8, 9, 10] of
                      Inl err \<Rightarrow> Inl err
                    | Inr rows \<Rightarrow> np_array rows)))"

section \<open>The rigid transform\<close>

text \<open>
  \<^verbatim>\<open>(Tr[:3, :3] @ mkp3d.T + Tr[:3, -1:]).T\<close> with \<open>mkp3d\<close> of shape \<open>(N, 3)\<close>. The matrix
  product needs three columns in \<^verbatim>\<open>Tr[:3, :3]\<close> (ValueError otherwise); \<^verbatim>\<open>Tr[:3, -1:]\<close> is the
  last column of the first three rows, broadcast over the points.
\<close>

definition dot :: "fl list \<Rightarrow> fl list \<Rightarrow> fl" where
  "dot r p = foldl fl_add (Fin 0) (map2 fl_mul r p)"

definition rot_block :: "fl list list \<Rightarrow> fl list list" where
  "rot_block Tr = map (take 3) (take 3 Tr)"

definition trans_col :: "fl list list \<Rightarrow> fl list" where
  "trans_col Tr = map last (take 3 Tr)"

definition transform_points :: "fl list list \<Rightarrow> fl list list \<Rightarrow> error + fl list list" where
  "transform_points Tr mkp3d =
     (if \<not> list_all (\<lambda>row. length row = 3) (rot_block Tr) then Inl ValueError
      else Inr (map (\<lambda>p. map2 (\<lambda>row t. fl_add (dot row p) t) (rot_block Tr) (trans_col Tr))
                  mkp3d))"

section \<open>Lifting matched keypoints to the global frame\<close>

text \<open>
  The four lines both aggregators share (89--92 and 154--157): load the scan of \<open>r\<close>,
  interpolate it at the matched reference keypoints, resolve the scan pose, transform.
\<close>

definition lift_to_3d ::
  "env \<Rightarrow> string \<Rightarrow> string \<Rightarrow> kp2 list \<Rightarrow> error + (fl list list \<times> bool list)" where
  "lift_to_3d e dataset_dir r mkpr =
     (case loadmat e (path_join dataset_dir (r @ ''.mat'')) of
        Inl err \<Rightarrow> Inl err
      | Inr scan_r \<Rightarrow>
          (case interpolate_scan (grid_sample e) scan_r mkpr of
             Inl err \<Rightarrow> Inl err
           | Inr (mkp3d, valid) \<Rightarrow>
               (case get_scan_pose e dataset_dir r of
                  Inl err \<Rightarrow> Inl err
                | Inr Tr \<Rightarrow>
                    (case transform_points Tr mkp3d of
                       Inl err \<Rightarrow> Inl err
                     | Inr g \<Rightarrow> Inr (g, valid)))))"

text \<open>\<^verbatim>\<open>x[valid]\<close> with a boolean mask of the length of \<open>x\<close>, and \<^verbatim>\<open>np.count_nonzero\<close>.\<close>

definition mask :: "'a list \<Rightarrow> bool list \<Rightarrow> 'a list" where
  "mask xs valid = map fst (filter snd (zip xs valid))"

definition count_nonzero :: "bool list \<Rightarrow> nat" where
  "count_nonzero v = length (filter (\<lambda>b. b) v)"

text \<open>The accumulators of one query: lists of arrays, concatenated after the loop.\<close>

record agg =
  all_mkpq :: "kp2 list list"
  all_mkpr :: "kp2 list list"
  all_mkp3d :: "fl list list list"
  all_indices :: "nat list list"
  num_matches :: nat

definition agg_init :: agg where
  "agg_init = \<lparr>all_mkpq = [], all_mkpr = [], all_mkp3d = [], all_indices = [], num_matches = 0\<rparr>"

text \<open>
  The end of the loop body: \<^verbatim>\<open>num_matches += len(mkpq)\<close> and the four \<^verbatim>\<open>append\<close>s, the
  last one \<^verbatim>\<open>np.full(np.count_nonzero(valid), i)\<close>.
\<close>

definition append_view ::
  "nat \<Rightarrow> kp2 list \<Rightarrow> kp2 list \<Rightarrow> fl list list \<Rightarrow> bool list \<Rightarrow>
   'a agg_scheme \<Rightarrow> 'a agg_scheme" where
  "append_view i mkpq mkpr mkp3d valid a =
     a\<lparr>all_mkpq := all_mkpq a @ [mask mkpq valid],
       all_mkpr := all_mkpr a @ [mask mkpr valid],
       all_mkp3d := all_mkp3d a @ [mask mkp3d valid],
       all_indices := all_indices a @ [replicate (count_nonzero valid) i],
       num_matches := num_matches a + length mkpq\<rparr>"

text \<open>The camera of both modes: \<^verbatim>\<open>4032. * 28. / 36.\<close> and the image centre.\<close>

definition camera_cfg :: "nat \<Rightarrow> nat \<Rightarrow> camera" where
  "camera_cfg h w =
     \<lparr>model = ''SIMPLE_PINHOLE'', cam_width = w, cam_height = h,
      params = [Fin (4032 * 28 / 36), Fin (0.5 * real w), Fin (0.5 * real h)]\<rparr>"

section \<open>pose\_from\_cluster (precomputed matches)\<close>

text \<open>
  \<^verbatim>\<open>if skip and (np.count_nonzero(v) < skip)\<close>: \<open>skip\<close> is \<open>None\<close> or an integer, and zero
  is false.
\<close>

definition skip_view :: "int option \<Rightarrow> nat \<Rightarrow> bool" where
  "skip_view skip n = (case skip of None \<Rightarrow> False | Some k \<Rightarrow> k \<noteq> 0 \<and> int n < k)"

text \<open>
  \<^verbatim>\<open>kpq[v]\<close>: a boolean index of another length raises IndexError. \<^verbatim>\<open>kpr[m[v]]\<close>: the
  indices are the non-negative entries of \<open>m\<close>; one beyond \<open>kpr\<close> raises IndexError.
\<close>

definition bool_index :: "'a list \<Rightarrow> bool list \<Rightarrow> error + 'a list" where
  "bool_index xs v = (if length v \<noteq> length xs then Inl IndexError else Inr (mask xs v))"

definition int_index :: "'a list \<Rightarrow> int list \<Rightarrow> error + 'a list" where
  "int_index xs idx =
     (if list_all (\<lambda>k. k < int (length xs)) idx then Inr (map (\<lambda>k. xs ! nat k) idx)
      else Inl IndexError)"

definition cluster_view ::
  "env \<Rightarrow> string \<Rightarrow> string \<Rightarrow> kp2 list \<Rightarrow> int option \<Rightarrow> nat \<Rightarrow> string \<Rightarrow> agg \<Rightarrow> error + agg" where
  "cluster_view e dataset_dir q kpq skip i r a =
     (case feature_file e r of
        None \<Rightarrow> Inl KeyError
      | Some kpr \<Rightarrow>
          (case match_file e (names_to_pair e q r) of
             None \<Rightarrow> Inl KeyError
           | Some m \<Rightarrow>
               let v = map (\<lambda>x. - 1 < x) m in
               if skip_view skip (count_nonzero v) then Inr a
               else
                 (case bool_index kpq v of
                    Inl err \<Rightarrow> Inl err
                  | Inr mkpq \<Rightarrow>
                      (case int_index kpr (mask m v) of
                         Inl err \<Rightarrow> Inl err
                       | Inr mkpr \<Rightarrow>
                           (case lift_to_3d e dataset_dir r mkpr of
                              Inl err \<Rightarrow> Inl err
                            | Inr (mkp3d, valid) \<Rightarrow>
                                Inr (append_view i mkpq mkpr mkp3d valid a))))))"

fun cluster_loop ::
  "env \<Rightarrow> string \<Rightarrow> string \<Rightarrow> kp2 list \<Rightarrow> int option \<Rightarrow> (nat \<times> string) list \<Rightarrow> agg
   \<Rightarrow> error + agg" where
  "cluster_loop e dataset_dir q kpq skip [] a = Inr a"
| "cluster_loop e dataset_dir q kpq skip ((i, r) # rest) a =
     (case cluster_view e dataset_dir q kpq skip i r a of
        Inl err \<Rightarrow> Inl err
      | Inr a' \<Rightarrow> cluster_loop e dataset_dir q kpq skip rest a')"

text \<open>
  \<^verbatim>\<open>np.concatenate(arrays, 0)\<close>: an empty list of arrays raises ValueError. The four
  accumulators grow together, so the first concatenation decides for all four.
\<close>

definition np_concatenate :: "'a list list \<Rightarrow> error + 'a list" where
  "np_concatenate arrays = (if arrays = [] then Inl ValueError else Inr (concat arrays))"

type_synonym cluster_result =
  "pnp_ret \<times> kp2 list \<times> kp2 list \<times> fl list list \<times> nat list \<times> nat"

definition pose_from_cluster ::
  "env \<Rightarrow> string \<Rightarrow> string \<Rightarrow> string list \<Rightarrow> int option \<Rightarrow> error + cluster_result" where
  "pose_from_cluster e dataset_dir q retrieved skip =
     (case imread e (path_join dataset_dir q) of
        None \<Rightarrow> Inl AttributeError
      | Some (h, w) \<Rightarrow>
          (case feature_file e q of
             None \<Rightarrow> Inl KeyError
           | Some kpq \<Rightarrow>
               (case cluster_loop e dataset_dir q kpq skip (List.enumerate 0 retrieved) agg_init of
                  Inl err \<Rightarrow> Inl err
                | Inr a \<Rightarrow>
                    (case np_concatenate (all_mkpq a) of
                       Inl err \<Rightarrow> Inl err
                     | Inr mkpq \<Rightarrow>
                         let mkpr = concat (all_mkpr a);
                             mkp3d = concat (all_mkp3d a);
                             indices = concat (all_indices a);
                             c = camera_cfg h w
                         in (case solver e mkpq mkp3d c (Fin 48) of
                               Inl err \<Rightarrow> Inl err
                             | Inr ret \<Rightarrow>
                                 Inr (ret\<lparr>cfg := Some c\<rparr>, mkpq, mkpr, mkp3d, indices,
                                      num_matches a))))))"

section \<open>pose\_from\_cluster\_onfly\_matching\<close>

record res_dict =
  db :: "string list"
  PnP_ret :: pnp_ret
  keypoints_query :: "kp2 list"
  keypoints_db :: "kp2 list"
  points_3d :: "fl list list"
  indices_db :: "nat list"
  n_matches :: nat

record onfly = agg +
  times :: "fl list"
  failed :: "(string \<times> string) list"

definition onfly_init :: onfly where
  "onfly_init = \<lparr>all_mkpq = [], all_mkpr = [], all_mkp3d = [], all_indices = [],
     num_matches = 0, times = [], failed = []\<rparr>"

text \<open>
  The body of the \<^verbatim>\<open>try\<close>, after the matcher has returned \<open>matches\<close> (the rows
  \<open>(x_q, y_q, x_r, y_r)\<close> of \<^verbatim>\<open>match_res[0]\<close>): \<open>Inr None\<close> is the \<^verbatim>\<open>continue\<close> of the
  threshold test, \<open>Inl\<close> an exception on its way to the \<^verbatim>\<open>except\<close>.
\<close>

definition onfly_try ::
  "env \<Rightarrow> string \<Rightarrow> string \<Rightarrow> int \<Rightarrow> (kp2 \<times> kp2) list
   \<Rightarrow> error + (kp2 list \<times> kp2 list \<times> fl list list \<times> bool list) option" where
  "onfly_try e dataset_dir r skip_matches matches =
     (if int (length matches) < skip_matches then Inr None
      else
        let mkpq = map fst matches; mkpr = map snd matches in
        (case lift_to_3d e dataset_dir r mkpr of
           Inl err \<Rightarrow> Inl err
         | Inr (mkp3d, valid) \<Rightarrow> Inr (Some (mkpq, mkpr, mkp3d, valid))))"

text \<open>
  One turn of the loop. The latency is appended as soon as the matcher has returned; the
  bare \<^verbatim>\<open>except:\<close> catches every exception of the body.
\<close>

definition onfly_view ::
  "env \<Rightarrow> string \<Rightarrow> string \<Rightarrow> int \<Rightarrow> nat \<Rightarrow> string \<Rightarrow> onfly \<Rightarrow> onfly" where
  "onfly_view e dataset_dir q skip_matches i r st =
     (let imq_path = path_join dataset_dir q;
          imr_path = path_join dataset_dir r
      in (case matcher e imq_path imr_path of
            Inl err \<Rightarrow> st\<lparr>failed := failed st @ [(q, r)]\<rparr>
          | Inr matches \<Rightarrow>
              let st1 = st\<lparr>times := times st @ [elapsed e imq_path imr_path]\<rparr> in
              (case onfly_try e dataset_dir r skip_matches matches of
                 Inl err \<Rightarrow> st1\<lparr>failed := failed st1 @ [(q, r)]\<rparr>
               | Inr None \<Rightarrow> st1\<lparr>failed := failed st1 @ [(q, r)]\<rparr>
               | Inr (Some (mkpq, mkpr, mkp3d, valid)) \<Rightarrow>
                   append_view i mkpq mkpr mkp3d valid st1)))"

fun onfly_loop ::
  "env \<Rightarrow> string \<Rightarrow> string \<Rightarrow> int \<Rightarrow> (nat \<times> string) list \<Rightarrow> onfly \<Rightarrow> onfly" where
  "onfly_loop e dataset_dir q skip_matches [] st = st"
| "onfly_loop e dataset_dir q skip_matches ((i, r) # rest) st =
     onfly_loop e dataset_dir q skip_matches rest (onfly_view e dataset_dir q skip_matches i r st)"

type_synonym poses = "string \<Rightarrow> (fl list \<times> fl list) option"

text \<open>
  The result is the returned triple and the dictionary \<open>poses\<close>, which the function
  updates in place.
\<close>

definition pose_from_cluster_onfly_matching ::
  "env \<Rightarrow> string \<Rightarrow> string \<Rightarrow> string list \<Rightarrow> poses \<Rightarrow> fl \<Rightarrow> int
   \<Rightarrow> error + (res_dict option \<times> (string \<times> string) list \<times> fl list \<times> poses)" where
  "pose_from_cluster_onfly_matching e dataset_dir q retrieved ps rthres skip_matches =
     (case imread e (path_join dataset_dir q) of
        None \<Rightarrow> Inl AttributeError
      | Some (h, w) \<Rightarrow>
          let c = camera_cfg h w;
              st = onfly_loop e dataset_dir q skip_matches (List.enumerate 0 retrieved) onfly_init
          in if num_matches st = 0 then Inr (None, failed st, times st, ps)
             else
               let mkpq = concat (all_mkpq st);
                   mkpr = concat (all_mkpr st);
                   mkp3d = concat (all_mkp3d st);
                   indices = concat (all_indices st)
               in (case solver e mkpq mkp3d c rthres of
                     Inl err \<Rightarrow> Inl err
                   | Inr ret0 \<Rightarrow>
                       let ret = ret0\<lparr>cfg := Some c\<rparr> in
                       (case qvec ret of
                          None \<Rightarrow> Inl KeyError
                        | Some qv \<Rightarrow>
                            (case tvec ret of
                               None \<Rightarrow> Inl KeyError
                             | Some tv \<Rightarrow>
                                 Inr (Some \<lparr>db = retrieved, PnP_ret = ret,
                                            keypoints_query = mkpq, keypoints_db = mkpr,
                                            points_3d = mkp3d, indices_db = indices,
                                            n_matches = num_matches st\<rparr>,
                                      failed st, times st, ps(q \<mapsto> (qv, tv)))))))"

section \<open>The two orchestrators\<close>

text \<open>
  The retrieval dictionary (\<^verbatim>\<open>parse_retrieval\<close>) is the list of its items in key order.
  The pose table is the list of the lines written, each the image basename with the
  quaternion and the translation (the formatting of the numbers is not modelled). The
  summary line of the log and the failures of writing a file are left out.
\<close>

type_synonym pose_line = "string \<times> fl list \<times> fl list"

record logs =
  loc :: "string \<Rightarrow> res_dict option option"
  failed_pairs :: "(string \<times> string) list"

record run =
  run_poses :: poses
  run_logs :: logs
  match_times :: "fl list"

definition run_init :: run where
  "run_init = \<lparr>run_poses = Map.empty,
     run_logs = \<lparr>loc = Map.empty, failed_pairs = []\<rparr>, match_times = []\<rparr>"

fun onfly_queries ::
  "env \<Rightarrow> string \<Rightarrow> fl \<Rightarrow> int \<Rightarrow> (string \<times> string list) list \<Rightarrow> run \<Rightarrow> error + run" where
  "onfly_queries e dataset_dir rthres skip_matches [] st = Inr st"
| "onfly_queries e dataset_dir rthres skip_matches ((q, retrieved) # rest) st =
     (case pose_from_cluster_onfly_matching e dataset_dir q retrieved (run_poses st)
             rthres skip_matches of
        Inl err \<Rightarrow> Inl err
      | Inr (res, fs, ts, ps) \<Rightarrow>
          onfly_queries e dataset_dir rthres skip_matches rest
            \<lparr>run_poses = ps,
             run_logs = \<lparr>loc = (loc (run_logs st))(q \<mapsto> res),
                         failed_pairs = failed_pairs (run_logs st) @ fs\<rparr>,
             match_times = match_times st @ ts\<rparr>)"

text \<open>
  The writing loop of \<^verbatim>\<open>localize_with_matcher\<close>: a query that is not in \<open>poses\<close> is
  skipped.
\<close>

definition write_poses :: "string list \<Rightarrow> poses \<Rightarrow> pose_line list" where
  "write_poses queries ps =
     concat (map (\<lambda>q. case ps q of None \<Rightarrow> [] | Some (qv, tv) \<Rightarrow> [(basename q, qv, tv)])
               queries)"

definition localize_with_matcher ::
  "env \<Rightarrow> string \<Rightarrow> (string \<times> string list) list \<Rightarrow> fl \<Rightarrow> int
   \<Rightarrow> error + (pose_line list \<times> logs)" where
  "localize_with_matcher e dataset_dir retrieval_dict rthres skip_matches =
     (case onfly_queries e dataset_dir rthres skip_matches retrieval_dict run_init of
        Inl err \<Rightarrow> Inl err
      | Inr st \<Rightarrow> Inr (write_poses (map fst retrieval_dict) (run_poses st), run_logs st))"

text \<open>
  \<^verbatim>\<open>main\<close>: no \<^verbatim>\<open>try\<close> anywhere, \<^verbatim>\<open>poses[q] = (ret['qvec'], ret['tvec'])\<close> for every query,
  and a writing loop that reads \<^verbatim>\<open>poses[q]\<close> for every query.
\<close>

fun main_queries ::
  "env \<Rightarrow> string \<Rightarrow> int option \<Rightarrow> (string \<times> string list) list \<Rightarrow> run \<Rightarrow> error + run" where
  "main_queries e dataset_dir skip [] st = Inr st"
| "main_queries e dataset_dir skip ((q, dbl) # rest) st =
     (case pose_from_cluster e dataset_dir q dbl skip of
        Inl err \<Rightarrow> Inl err
      | Inr (ret, mkpq, mkpr, mkp3d, indices, n) \<Rightarrow>
          (case qvec ret of
             None \<Rightarrow> Inl KeyError
           | Some qv \<Rightarrow>
               (case tvec ret of
                  None \<Rightarrow> Inl KeyError
                | Some tv \<Rightarrow>
                    main_queries e dataset_dir skip rest
                      (st\<lparr>run_poses := (run_poses st)(q \<mapsto> (qv, tv)),
                          run_logs := (run_logs st)
                            \<lparr>loc := (loc (run_logs st))
                               (q \<mapsto> Some \<lparr>db = dbl, PnP_ret = ret, keypoints_query = mkpq,
                                            keypoints_db = mkpr, points_3d = mkp3d,
                                            indices_db = indices, n_matches = n\<rparr>)\<rparr>\<rparr>))))"

fun write_all_poses :: "string list \<Rightarrow> poses \<Rightarrow> error + pose_line list" where
  "write_all_poses [] ps = Inr []"
| "write_all_poses (q # queries) ps =
     (case ps q of
        None \<Rightarrow> Inl KeyError
      | Some (qv, tv) \<Rightarrow>
          (case write_all_poses queries ps of
             Inl err \<Rightarrow> Inl err
           | Inr ls \<Rightarrow> Inr ((basename q, qv, tv) # ls)))"

definition main ::
  "env \<Rightarrow> string \<Rightarrow> (string \<times> string list) list \<Rightarrow> int option
   \<Rightarrow> error + (pose_line list \<times> logs)" where
  "main e dataset_dir retrieval_dict skip_matches =
     (case main_queries e dataset_dir skip_matches retrieval_dict run_init of
        Inl err \<Rightarrow> Inl err
      | Inr st \<Rightarrow>
          (case write_all_poses (map fst retrieval_dict) (run_poses st) of
             Inl err \<Rightarrow> Inl err
           | Inr ls \<Rightarrow> Inr (ls, run_logs st)))"

section \<open>Predicates of the statements and example inputs\<close>




text \<open>
  Example scans whose pixels are all alike: three by three, channel 0 without depth; one
  column wide; and without depth at all. On such a scan both sampling modes return the
  value of the pixels, which is what \<open>flat_sampler\<close> does.
\<close>

definition half_scan :: scan where
  "half_scan = \<lparr>height = 3, width = 3, pix = (\<lambda>y x ch. if ch = 0 then NaN else Fin 2)\<rparr>"


definition flat_sampler :: sampler where
  "flat_sampler m s ch p = pix s 0 0 ch"


definition identity_pose :: "fl list list" where
  "identity_pose =
     [[Fin 1, Fin 0, Fin 0, Fin 0],
      [Fin 0, Fin 1, Fin 0, Fin 0],
      [Fin 0, Fin 0, Fin 1, Fin 0],
      [Fin 0, Fin 0, Fin 0, Fin 1]]"

text \<open>
  The file \<open>get_scan_pose\<close> opens for a reference path of at least three segments, and
  the statement that lines 7 to 10 of a file parse as the four rows of a matrix.
\<close>

definition scan_pose_path :: "string \<Rightarrow> string \<Rightarrow> string" where
  "scan_pose_path dataset_dir rpath =
     (let parts = split_on CHR ''/'' rpath; n = length parts
      in trans_path dataset_dir (parts ! (n - 3)) (take 3 (parts ! (n - 1))) (parts ! (n - 2)))"

definition window_parses ::
  "(string \<Rightarrow> error + fl list) \<Rightarrow> string list \<Rightarrow> fl list list \<Rightarrow> bool" where
  "window_parses fs raw_lines rows \<longleftrightarrow>
     11 \<le> length raw_lines \<and> length rows = 4 \<and>
     fs (raw_lines ! 7) = Inr (rows ! 0) \<and> fs (raw_lines ! 8) = Inr (rows ! 1) \<and>
     fs (raw_lines ! 9) = Inr (rows ! 2) \<and> fs (raw_lines ! 10) = Inr (rows ! 3) \<and>
     length (rows ! 1) = length (rows ! 0) \<and> length (rows ! 2) = length (rows ! 0) \<and>
     length (rows ! 3) = length (rows ! 0)"

text \<open>
  An example world. One reference image with its alignment file (seven lines of header,
  then the identity), a row parser that knows the four lines of that file, a matcher that
  returns one match in the middle of the scan, a solver that returns no pose when it is
  given no correspondence and a fixed pose otherwise.
\<close>

definition ex_dir :: string where
  "ex_dir = ''data''"

definition ex_q :: string where
  "ex_q = ''query/IMG_0731.JPG''"

definition ex_q2 :: string where
  "ex_q2 = ''query/IMG_0732.JPG''"

definition ex_r :: string where
  "ex_r = ''cutouts/DUC1/024/DUC_cutout_024_0_0.jpg''"

definition pose_lines :: "string list" where
  "pose_lines =
     [''h0'', ''h1'', ''h2'', ''h3'', ''h4'', ''h5'', ''h6'',
      ''1 0 0 0'', ''0 1 0 0'', ''0 0 1 0'', ''0 0 0 1'']"

definition table_parser :: "string \<Rightarrow> error + fl list" where
  "table_parser l =
     (if l = ''1 0 0 0'' then Inr [Fin 1, Fin 0, Fin 0, Fin 0]
      else if l = ''0 1 0 0'' then Inr [Fin 0, Fin 1, Fin 0, Fin 0]
      else if l = ''0 0 1 0'' then Inr [Fin 0, Fin 0, Fin 1, Fin 0]
      else if l = ''0 0 0 1'' then Inr [Fin 0, Fin 0, Fin 0, Fin 1]
      else if l = ''0 0 0 7'' then Inr [Fin 0, Fin 0, Fin 0, Fin 7]
      else Inl ValueError)"

definition depth_scan :: scan where
  "depth_scan = \<lparr>height = 3, width = 3, pix = (\<lambda>y x ch. Fin 2)\<rparr>"

definition hole_scan :: scan where
  "hole_scan = \<lparr>height = 3, width = 3, pix = (\<lambda>y x ch. NaN)\<rparr>"

definition ex_solver ::
  "kp2 list \<Rightarrow> fl list list \<Rightarrow> camera \<Rightarrow> fl \<Rightarrow> error + pnp_ret" where
  "ex_solver mkpq mkp3d c thr =
     (if mkpq = [] then Inr \<lparr>qvec = None, tvec = None, inliers = [], cfg = None\<rparr>
      else Inr \<lparr>qvec = Some [Fin 1, Fin 0, Fin 0, Fin 0], tvec = Some [Fin 0, Fin 0, Fin 0],
                inliers = replicate (length mkpq) True, cfg = None\<rparr>)"

definition ex_env :: env where
  "ex_env =
     \<lparr>imread = (\<lambda>p. Some (4, 6)),
      loadmat = (\<lambda>p. Inr depth_scan),
      files = (\<lambda>p. if p = ''data/database/alignments/DUC1/transformations/DUC_trans_024.txt''
                    then Some pose_lines else None),
      fromstring = table_parser,
      grid_sample = flat_sampler,
      feature_file = (\<lambda>n. Some [(Fin 1, Fin 1)]),
      match_file = (\<lambda>n. Some [0]),
      names_to_pair = (\<lambda>a b. a @ ''_'' @ b),
      matcher = (\<lambda>a b. Inr [((Fin 1, Fin 1), (Fin 1, Fin 1))]),
      elapsed = (\<lambda>a b. Fin 0),
      solver = ex_solver\<rparr>"

text \<open>
  What one reference view hands to the accumulators, \<open>None\<close> when it hands nothing: on the
  fly, when the matcher or the lifting raises or the matches are too few; with precomputed
  matches, when the view is skipped (an exception there ends the whole call). The
  projections give the four blocks a view appends.
\<close>

type_synonym view_out = "(kp2 list \<times> kp2 list \<times> fl list list \<times> bool list) option"

definition onfly_out :: "env \<Rightarrow> string \<Rightarrow> string \<Rightarrow> int \<Rightarrow> string \<Rightarrow> view_out" where
  "onfly_out e dataset_dir q skip_matches r =
     (case matcher e (path_join dataset_dir q) (path_join dataset_dir r) of
        Inl err \<Rightarrow> None
      | Inr matches \<Rightarrow>
          (case onfly_try e dataset_dir r skip_matches matches of
             Inl err \<Rightarrow> None
           | Inr res \<Rightarrow> res))"

definition cluster_out ::
  "env \<Rightarrow> string \<Rightarrow> string \<Rightarrow> kp2 list \<Rightarrow> int option \<Rightarrow> string \<Rightarrow> view_out" where
  "cluster_out e dataset_dir q kpq skip r =
     (case (feature_file e r, match_file e (names_to_pair e q r)) of
        (Some kpr, Some m) \<Rightarrow>
          let v = map (\<lambda>x. - 1 < x) m in
          if skip_view skip (count_nonzero v) then None
          else
            (case (bool_index kpq v, int_index kpr (mask m v)) of
               (Inr mkpq, Inr mkpr) \<Rightarrow>
                 (case lift_to_3d e dataset_dir r mkpr of
                    Inl err \<Rightarrow> None
                  | Inr (mkp3d, valid) \<Rightarrow> Some (mkpq, mkpr, mkp3d, valid))
             | _ \<Rightarrow> None)
      | _ \<Rightarrow> None)"

definition view_kq :: "view_out \<Rightarrow> kp2 list" where
  "view_kq out = (case out of None \<Rightarrow> [] | Some (mkpq, mkpr, mkp3d, valid) \<Rightarrow> mask mkpq valid)"

definition view_kr :: "view_out \<Rightarrow> kp2 list" where
  "view_kr out = (case out of None \<Rightarrow> [] | Some (mkpq, mkpr, mkp3d, valid) \<Rightarrow> mask mkpr valid)"

definition view_3d :: "view_out \<Rightarrow> fl list list" where
  "view_3d out = (case out of None \<Rightarrow> [] | Some (mkpq, mkpr, mkp3d, valid) \<Rightarrow> mask mkp3d valid)"

definition view_n :: "view_out \<Rightarrow> nat" where
  "view_n out = (case out of None \<Rightarrow> 0 | Some (mkpq, mkpr, mkp3d, valid) \<Rightarrow> count_nonzero valid)"

definition view_raw :: "view_out \<Rightarrow> nat" where
  "view_raw out = (case out of None \<Rightarrow> 0 | Some (mkpq, mkpr, mkp3d, valid) \<Rightarrow> length mkpq)"

text \<open>The enumerated retrieval list without the view at position \<open>i\<close>.\<close>

definition drop_view :: "nat \<Rightarrow> (nat \<times> string) list \<Rightarrow> (nat \<times> string) list" where
  "drop_view i irs = filter (\<lambda>ir. fst ir \<noteq> i) irs"


text \<open>
  Two accumulator states hold the same aggregate when the arrays the aggregator returns
  (the concatenations) and the match count agree.
\<close>

definition same_aggregate :: "'a agg_scheme \<Rightarrow> 'b agg_scheme \<Rightarrow> bool" where
  "same_aggregate s t \<longleftrightarrow>
     concat (all_mkpq s) = concat (all_mkpq t) \<and>
     concat (all_mkpr s) = concat (all_mkpr t) \<and>
     concat (all_mkp3d s) = concat (all_mkp3d t) \<and>
     concat (all_indices s) = concat (all_indices t) \<and>
     num_matches s = num_matches t"

text \<open>
  A second world with a second reference image, \<open>ex_missing\<close>: it has no scan file, the
  matcher finds nothing in it, and the match store has no valid match for it.
\<close>

definition ex_missing :: string where
  "ex_missing = ''cutouts/DUC1/024/missing.jpg''"

definition ex_env2 :: env where
  "ex_env2 =
     ex_env\<lparr>loadmat := (\<lambda>p. if p = ''data/cutouts/DUC1/024/DUC_cutout_024_0_0.jpg.mat''
                          then Inr depth_scan else Inl FileNotFoundError),
            match_file := (\<lambda>n. if n = ''query/IMG_0731.JPG_cutouts/DUC1/024/DUC_cutout_024_0_0.jpg''
                             then Some [0] else Some [- 1]),
            matcher := (\<lambda>a b. if b = ''data/cutouts/DUC1/024/DUC_cutout_024_0_0.jpg''
                             then Inr [((Fin 1, Fin 1), (Fin 1, Fin 1))] else Inr [])\<rparr>"

text \<open>
  The processing of reference view \<open>r\<close> raises inside the \<^verbatim>\<open>try\<close>: the matcher raises, or
  (the matches being enough to go on) the scan loader raises, or the interpolation raises,
  or the scan pose cannot be resolved, or the transform raises.
\<close>

definition view_raises :: "env \<Rightarrow> string \<Rightarrow> string \<Rightarrow> int \<Rightarrow> string \<Rightarrow> bool" where
  "view_raises e dataset_dir q skip_matches r =
     (case matcher e (path_join dataset_dir q) (path_join dataset_dir r) of
        Inl err \<Rightarrow> True
      | Inr matches \<Rightarrow>
          \<not> int (length matches) < skip_matches \<and>
          (case loadmat e (path_join dataset_dir (r @ ''.mat'')) of
             Inl err \<Rightarrow> True
           | Inr scan_r \<Rightarrow>
               (case interpolate_scan (grid_sample e) scan_r (map snd matches) of
                  Inl err \<Rightarrow> True
                | Inr (mkp3d, valid) \<Rightarrow>
                    (case get_scan_pose e dataset_dir r of
                       Inl err \<Rightarrow> True
                     | Inr Tr \<Rightarrow>
                         (case transform_points Tr mkp3d of
                            Inl err \<Rightarrow> True
                          | Inr g \<Rightarrow> False)))))"

text \<open>
  Two more worlds. In the first every scan is without depth. In the second the solver
  raises on the correspondences of the first query, and the matcher gives the second
  query other keypoints, on which the solver succeeds. And a solver that raises on every
  call.
\<close>

definition ex_env_hole :: env where
  "ex_env_hole = ex_env\<lparr>loadmat := (\<lambda>p. Inr hole_scan)\<rparr>"

definition ex_env_fail :: env where
  "ex_env_fail =
     ex_env\<lparr>matcher := (\<lambda>a b. if a = ''data/query/IMG_0731.JPG''
                           then Inr [((Fin 1, Fin 1), (Fin 1, Fin 1))]
                           else Inr [((Fin 2, Fin 2), (Fin 1, Fin 1))]),
            solver := (\<lambda>mkpq mkp3d c thr.
                         if mkpq = [(Fin 1, Fin 1)] then Inl (Raised ''PoseSolverFailure'')
                         else ex_solver mkpq mkp3d c thr)\<rparr>"

definition raising_solver ::
  "kp2 list \<Rightarrow> fl list list \<Rightarrow> camera \<Rightarrow> fl \<Rightarrow> error + pnp_ret" where
  "raising_solver mkpq mkp3d c thr = Inl (Raised ''solver called'')"

text \<open>
  The solver does not produce a pose: it raises \<open>err\<close>, or it returns a dictionary without
  \<^verbatim>\<open>qvec\<close> or \<^verbatim>\<open>tvec\<close>, and the caller's lookup raises KeyError.
\<close>

definition no_pose :: "error + pnp_ret \<Rightarrow> error \<Rightarrow> bool" where
  "no_pose res err =
     (case res of
        Inl err' \<Rightarrow> err = err'
      | Inr ret \<Rightarrow> (qvec ret = None \<or> tvec ret = None) \<and> err = KeyError)"

section \<open>Properties of interpolate\_scan\<close>

lemma map2_same: "map2 h (map f xs) (map g xs) = map (\<lambda>x. h (f x) (g x)) xs"
  by (induction xs) auto

lemma interp_rows:
  "map2 (map2 where_nan) (grid_rows gs Bilinear s kpn) (grid_rows gs Nearest s kpn) =
     map (\<lambda>ch. map (\<lambda>p. where_nan (gs Bilinear s ch p) (gs Nearest s ch p)) kpn) [0..<3]"
  by (simp add: grid_rows_def map2_same)

text \<open>What a successful call returns, entry by entry.\<close>

lemma interpolate_scan_Inr:
  assumes "interpolate_scan gs s kp = Inr (kp3d, valid)"
  shows "kp3d = map (\<lambda>j. map (\<lambda>ch. where_nan (gs Bilinear s ch (normalize_kp s (kp ! j)))
                                           (gs Nearest s ch (normalize_kp s (kp ! j)))) [0..<3])
                  [0..<length kp]"
    and "valid = map (\<lambda>j. \<not> list_ex (\<lambda>ch. isnan (where_nan (gs Bilinear s ch (normalize_kp s (kp ! j)))
                                           (gs Nearest s ch (normalize_kp s (kp ! j))))) [0..<3])
                  [0..<length kp]"
proof -
  let ?kpn = "map (normalize_kp s) kp"
  let ?interp = "map (\<lambda>ch. map (\<lambda>p. where_nan (gs Bilinear s ch p) (gs Nearest s ch p)) ?kpn) [0..<3]"
  have "interpolate_scan gs s kp =
      (if \<not> in_bounds ?kpn then Inl AssertionError
       else Inr (map (\<lambda>j. map (\<lambda>row. row ! j) ?interp) [0..<length ?kpn],
                 map (\<lambda>j. \<not> list_ex (\<lambda>row. isnan (row ! j)) ?interp) [0..<length ?kpn]))"
    unfolding interpolate_scan_def Let_def interp_rows by (rule refl)
  with assms have k: "kp3d = map (\<lambda>j. map (\<lambda>row. row ! j) ?interp) [0..<length ?kpn]"
    and v: "valid = map (\<lambda>j. \<not> list_ex (\<lambda>row. isnan (row ! j)) ?interp) [0..<length ?kpn]"
    by (simp_all split: if_splits)
  show "kp3d = map (\<lambda>j. map (\<lambda>ch. where_nan (gs Bilinear s ch (normalize_kp s (kp ! j)))
                                           (gs Nearest s ch (normalize_kp s (kp ! j)))) [0..<3])
                  [0..<length kp]"
    unfolding k by (simp add: o_def)
  show "valid = map (\<lambda>j. \<not> list_ex (\<lambda>ch. isnan (where_nan (gs Bilinear s ch (normalize_kp s (kp ! j)))
                                           (gs Nearest s ch (normalize_kp s (kp ! j))))) [0..<3])
                  [0..<length kp]"
    unfolding v by (simp add: o_def list_ex_iff)
qed




lemma flat_half_scan:
  "interpolate_scan flat_sampler half_scan [(Fin 1, Fin 1)] = Inr ([[NaN, Fin 2, Fin 2]], [False])"
  by (simp add: interpolate_scan_def Let_def normalize_kp_def norm_coord_def fl_sub_def
      in_bounds_def grid_rows_def flat_sampler_def half_scan_def where_nan_def upt_rec)

text \<open>
  C2. When \<open>interpolate_scan\<close> returns, the value of channel \<open>ch\<close> at keypoint \<open>j\<close> is the
  bilinear sample of that channel at the normalised keypoint if that sample is a number,
  and the nearest-neighbour sample only if the bilinear sample is not-a-number.
\<close>

theorem interpolate_scan_prefers_bilinear:
  assumes "interpolate_scan gs s kp = Inr (kp3d, valid)" and "j < length kp" and "ch < 3"
  shows "(\<not> isnan (gs Bilinear s ch (normalize_kp s (kp ! j))) \<longrightarrow>
            kp3d ! j ! ch = gs Bilinear s ch (normalize_kp s (kp ! j))) \<and>
         (isnan (gs Bilinear s ch (normalize_kp s (kp ! j))) \<longrightarrow>
            kp3d ! j ! ch = gs Nearest s ch (normalize_kp s (kp ! j)))"
proof -
  have "kp3d ! j ! ch = where_nan (gs Bilinear s ch (normalize_kp s (kp ! j)))
                                  (gs Nearest s ch (normalize_kp s (kp ! j)))"
    using assms(2,3) unfolding interpolate_scan_Inr(1)[OF assms(1)] by simp
  then show ?thesis by (simp add: where_nan_def)
qed

theorem interpolate_scan_prefers_bilinear_witness:
  "interpolate_scan flat_sampler half_scan [(Fin 1, Fin 1)] = Inr ([[NaN, Fin 2, Fin 2]], [False]) \<and>
   \<not> isnan (flat_sampler Bilinear half_scan 1 (normalize_kp half_scan ([(Fin 1, Fin 1)] ! 0))) \<and>
   [[NaN, Fin 2, Fin 2]] ! 0 ! 1 = flat_sampler Bilinear half_scan 1 (normalize_kp half_scan ([(Fin 1, Fin 1)] ! 0))"
proof -
  have n: "\<not> isnan (flat_sampler Bilinear half_scan 1 p)" for p
    by (simp add: flat_sampler_def half_scan_def)
  from interpolate_scan_prefers_bilinear [OF flat_half_scan, of 0 1] n flat_half_scan
  show ?thesis by simp
qed

section \<open>The bounds precondition\<close>










section \<open>Properties of the rigid transform\<close>

lemma dot3: "dot [a, b, c] [x, y, z] = fl_add (fl_add (fl_add (Fin 0) (fl_mul a x)) (fl_mul b y)) (fl_mul c z)"
  by (simp add: dot_def)





section \<open>Properties of get\_scan\_pose\<close>

lemma parse_rows_window:
  "parse_rows fs ls [7, 8, 9, 10] = Inr rows \<longleftrightarrow>
     11 \<le> length ls \<and>
     (\<exists>a b c d. fs (ls ! 7) = Inr a \<and> fs (ls ! 8) = Inr b \<and> fs (ls ! 9) = Inr c \<and>
        fs (ls ! 10) = Inr d \<and> rows = [a, b, c, d])"
  by (auto split: sum.splits if_splits)

lemma np_array_four:
  "np_array [a, b, c, d] = Inr Tr \<longleftrightarrow>
     Tr = [a, b, c, d] \<and> length b = length a \<and> length c = length a \<and> length d = length a"
  by (auto simp: np_array_def)

lemma get_scan_pose_eq:
  assumes "3 \<le> length (split_on CHR ''/'' rpath)"
  shows "get_scan_pose e dataset_dir rpath =
     (case files e (scan_pose_path dataset_dir rpath) of
        None \<Rightarrow> Inl FileNotFoundError
      | Some raw_lines \<Rightarrow>
          (case parse_rows (fromstring e) raw_lines [7, 8, 9, 10] of
             Inl err \<Rightarrow> Inl err
           | Inr rows \<Rightarrow> np_array rows))"
  using assms by (simp add: get_scan_pose_def scan_pose_path_def Let_def)

lemma four_rows:
  assumes "length rows = 4"
  shows "rows = [rows ! 0, rows ! 1, rows ! 2, rows ! 3]"
proof -
  from assms obtain a b c d where "rows = [a, b, c, d]"
    by (auto simp: numeral_eq_Suc length_Suc_conv)
  then show ?thesis by simp
qed

lemma get_scan_pose_Inr_iff:
  assumes "3 \<le> length (split_on CHR ''/'' rpath)"
      and "files e (scan_pose_path dataset_dir rpath) = Some ls"
  shows "get_scan_pose e dataset_dir rpath = Inr Tr \<longleftrightarrow> window_parses (fromstring e) ls Tr"
proof
  assume "get_scan_pose e dataset_dir rpath = Inr Tr"
  then obtain rows where r: "parse_rows (fromstring e) ls [7, 8, 9, 10] = Inr rows"
      and a: "np_array rows = Inr Tr"
    unfolding get_scan_pose_eq[OF assms(1)] assms(2) by (auto split: sum.splits)
  from r obtain a b c d where abcd: "11 \<le> length ls" "fromstring e (ls ! 7) = Inr a"
      "fromstring e (ls ! 8) = Inr b" "fromstring e (ls ! 9) = Inr c"
      "fromstring e (ls ! 10) = Inr d" "rows = [a, b, c, d]"
    unfolding parse_rows_window by blast
  from a abcd(6) have "Tr = [a, b, c, d]" "length b = length a" "length c = length a"
      "length d = length a"
    by (simp_all add: np_array_four)
  with abcd show "window_parses (fromstring e) ls Tr" by (simp add: window_parses_def)
next
  assume w: "window_parses (fromstring e) ls Tr"
  then have len: "length Tr = 4" by (simp add: window_parses_def)
  have Tr: "Tr = [Tr ! 0, Tr ! 1, Tr ! 2, Tr ! 3]" using four_rows[OF len] .
  from w have p: "parse_rows (fromstring e) ls [7, 8, 9, 10] = Inr [Tr ! 0, Tr ! 1, Tr ! 2, Tr ! 3]"
    unfolding parse_rows_window by (simp add: window_parses_def)
  from w have n: "np_array [Tr ! 0, Tr ! 1, Tr ! 2, Tr ! 3] = Inr [Tr ! 0, Tr ! 1, Tr ! 2, Tr ! 3]"
    unfolding np_array_four by (simp add: window_parses_def)
  show "get_scan_pose e dataset_dir rpath = Inr Tr"
    unfolding get_scan_pose_eq[OF assms(1)] assms(2) using p n Tr by simp
qed


lemma get_scan_pose_segments:
  "get_scan_pose e dataset_dir rpath = Inr Tr \<Longrightarrow> 3 \<le> length (split_on CHR ''/'' rpath)"
  by (auto simp: get_scan_pose_def Let_def split: if_splits)

lemma ex_r_segments: "3 \<le> length (split_on CHR ''/'' ex_r)"
  by (simp add: ex_r_def)

lemma ex_r_path:
  "scan_pose_path ex_dir ex_r = ''data/database/alignments/DUC1/transformations/DUC_trans_024.txt''"
  by (simp add: scan_pose_path_def ex_r_def ex_dir_def trans_path_def path_join_def Let_def)

lemma ex_window: "window_parses table_parser pose_lines identity_pose"
  by (simp add: window_parses_def table_parser_def pose_lines_def identity_pose_def)



section \<open>The bottom row of the alignment matrix\<close>

lemma transform_points_top:
  "take 3 Tr = take 3 Tr' \<Longrightarrow> transform_points Tr mkp3d = transform_points Tr' mkp3d"
  by (simp add: transform_points_def rot_block_def trans_col_def)

lemma lift_to_3d_top:
  assumes "grid_sample e' = grid_sample e" and "loadmat e' = loadmat e"
      and "get_scan_pose e dataset_dir r = Inr Tr" and "get_scan_pose e' dataset_dir r = Inr Tr'"
      and "take 3 Tr = take 3 Tr'"
  shows "lift_to_3d e' dataset_dir r mkpr = lift_to_3d e dataset_dir r mkpr"
  using assms transform_points_top[OF assms(5)]
  by (simp add: lift_to_3d_def split: sum.splits prod.splits)

lemma ex_scan_pose: "get_scan_pose ex_env ex_dir ex_r = Inr identity_pose"
proof -
  have "files ex_env (scan_pose_path ex_dir ex_r) = Some pose_lines"
    by (simp add: ex_r_path ex_env_def)
  moreover have "fromstring ex_env = table_parser" by (simp add: ex_env_def)
  ultimately show ?thesis
    using get_scan_pose_Inr_iff[OF ex_r_segments, of ex_env ex_dir pose_lines identity_pose] ex_window
    by simp
qed

lemma ex_scan_pose_seven:
  "get_scan_pose (ex_env\<lparr>files := \<lambda>p. Some (pose_lines[10 := ''0 0 0 7''])\<rparr>) ex_dir ex_r =
     Inr (identity_pose[3 := [Fin 0, Fin 0, Fin 0, Fin 7]])"
proof -
  let ?e = "ex_env\<lparr>files := \<lambda>p. Some (pose_lines[10 := ''0 0 0 7''])\<rparr>"
  have "files ?e (scan_pose_path ex_dir ex_r) = Some (pose_lines[10 := ''0 0 0 7''])" by simp
  moreover have "fromstring ?e = table_parser" by (simp add: ex_env_def)
  moreover have "window_parses table_parser (pose_lines[10 := ''0 0 0 7''])
      (identity_pose[3 := [Fin 0, Fin 0, Fin 0, Fin 7]])"
    by (simp add: window_parses_def table_parser_def pose_lines_def identity_pose_def)
  ultimately show ?thesis
    using get_scan_pose_Inr_iff[OF ex_r_segments, of ?e ex_dir "pose_lines[10 := ''0 0 0 7'']"
        "identity_pose[3 := [Fin 0, Fin 0, Fin 0, Fin 7]]"]
    by simp
qed

text \<open>
  C10. What \<open>get_scan_pose\<close> returns has four rows, the last one parsed from line 10 of
  the file. The transform reads the first three rows only: two matrices with the same
  first three rows transform every point list alike, and the lifting step both aggregators
  share gives the same result (points, validity flags or exception) for two worlds whose
  alignment matrices differ in the bottom row only.
\<close>

theorem bottom_row_unused:
  "(get_scan_pose e dataset_dir r = Inr Tr \<longrightarrow>
      length Tr = 4 \<and>
      (\<exists>ls. files e (scan_pose_path dataset_dir r) = Some ls \<and>
            fromstring e (ls ! 10) = Inr (Tr ! 3))) \<and>
   (take 3 Tr = take 3 Tr' \<longrightarrow> transform_points Tr mkp3d = transform_points Tr' mkp3d) \<and>
   (grid_sample e' = grid_sample e \<and> loadmat e' = loadmat e \<and>
    get_scan_pose e dataset_dir r = Inr Tr \<and> get_scan_pose e' dataset_dir r = Inr Tr' \<and>
    take 3 Tr = take 3 Tr' \<longrightarrow>
      lift_to_3d e' dataset_dir r mkpr = lift_to_3d e dataset_dir r mkpr)"
proof (intro conjI impI)
  assume g: "get_scan_pose e dataset_dir r = Inr Tr"
  note s = get_scan_pose_segments[OF g]
  from g obtain ls where ls: "files e (scan_pose_path dataset_dir r) = Some ls"
    unfolding get_scan_pose_eq[OF s] by (auto split: option.splits)
  from g have w: "window_parses (fromstring e) ls Tr"
    using get_scan_pose_Inr_iff[OF s ls] by simp
  then show "length Tr = 4" by (simp add: window_parses_def)
  from w ls show "\<exists>ls. files e (scan_pose_path dataset_dir r) = Some ls \<and>
            fromstring e (ls ! 10) = Inr (Tr ! 3)"
    by (auto simp: window_parses_def)
next
  assume "take 3 Tr = take 3 Tr'"
  then show "transform_points Tr mkp3d = transform_points Tr' mkp3d"
    by (rule transform_points_top)
next
  assume "grid_sample e' = grid_sample e \<and> loadmat e' = loadmat e \<and>
    get_scan_pose e dataset_dir r = Inr Tr \<and> get_scan_pose e' dataset_dir r = Inr Tr' \<and>
    take 3 Tr = take 3 Tr'"
  then show "lift_to_3d e' dataset_dir r mkpr = lift_to_3d e dataset_dir r mkpr"
    using lift_to_3d_top by blast
qed


theorem bottom_row_unused_witness:
  "get_scan_pose ex_env ex_dir ex_r = Inr identity_pose \<and>
   length identity_pose = 4 \<and>
   get_scan_pose (ex_env\<lparr>files := \<lambda>p. Some (pose_lines[10 := ''0 0 0 7''])\<rparr>) ex_dir ex_r =
     Inr (identity_pose[3 := [Fin 0, Fin 0, Fin 0, Fin 7]]) \<and>
   transform_points identity_pose [[Fin 2, Fin 2, Fin 2]] =
     transform_points (identity_pose[3 := [Fin 0, Fin 0, Fin 0, Fin 7]]) [[Fin 2, Fin 2, Fin 2]] \<and>
   lift_to_3d (ex_env\<lparr>files := \<lambda>p. Some (pose_lines[10 := ''0 0 0 7''])\<rparr>) ex_dir ex_r [(Fin 1, Fin 1)] =
     lift_to_3d ex_env ex_dir ex_r [(Fin 1, Fin 1)]"
proof -
  let ?e' = "ex_env\<lparr>files := \<lambda>p. Some (pose_lines[10 := ''0 0 0 7''])\<rparr>"
  let ?Tr' = "identity_pose[3 := [Fin 0, Fin 0, Fin 0, Fin 7]]"
  note t = bottom_row_unused [where e = ex_env and e' = ?e' and dataset_dir = ex_dir
      and r = ex_r and Tr = identity_pose and Tr' = ?Tr']
  have top: "take 3 identity_pose = take 3 ?Tr'" by (simp add: identity_pose_def)
  have a: "length identity_pose = 4"
    using t ex_scan_pose by blast
  have b: "transform_points identity_pose [[Fin 2, Fin 2, Fin 2]] =
      transform_points ?Tr' [[Fin 2, Fin 2, Fin 2]]"
    using t [of "[[Fin 2, Fin 2, Fin 2]]"] top by blast
  have g: "grid_sample ?e' = grid_sample ex_env" "loadmat ?e' = loadmat ex_env" by simp_all
  have c: "lift_to_3d ?e' ex_dir ex_r [(Fin 1, Fin 1)] = lift_to_3d ex_env ex_dir ex_r [(Fin 1, Fin 1)]"
    using t [of _ "[(Fin 1, Fin 1)]"] g ex_scan_pose ex_scan_pose_seven top by blast
  from ex_scan_pose a ex_scan_pose_seven b c show ?thesis by blast
qed

section \<open>The loop of pose\_from\_cluster\_onfly\_matching\<close>

lemma onfly_view_indices:
  "all_indices (onfly_view e dataset_dir q skip_matches i r st) =
     all_indices st @
     (case onfly_out e dataset_dir q skip_matches r of
        None \<Rightarrow> []
      | Some (mkpq, mkpr, mkp3d, valid) \<Rightarrow> [replicate (count_nonzero valid) i])"
  by (simp add: onfly_view_def onfly_out_def append_view_def Let_def
      split: sum.splits option.splits prod.splits)

lemma onfly_view_mkpq:
  "all_mkpq (onfly_view e dataset_dir q skip_matches i r st) =
     all_mkpq st @
     (case onfly_out e dataset_dir q skip_matches r of
        None \<Rightarrow> []
      | Some (mkpq, mkpr, mkp3d, valid) \<Rightarrow> [mask mkpq valid])"
  by (simp add: onfly_view_def onfly_out_def append_view_def Let_def
      split: sum.splits option.splits prod.splits)

lemma onfly_view_mkpr:
  "all_mkpr (onfly_view e dataset_dir q skip_matches i r st) =
     all_mkpr st @
     (case onfly_out e dataset_dir q skip_matches r of
        None \<Rightarrow> []
      | Some (mkpq, mkpr, mkp3d, valid) \<Rightarrow> [mask mkpr valid])"
  by (simp add: onfly_view_def onfly_out_def append_view_def Let_def
      split: sum.splits option.splits prod.splits)

lemma onfly_view_mkp3d:
  "all_mkp3d (onfly_view e dataset_dir q skip_matches i r st) =
     all_mkp3d st @
     (case onfly_out e dataset_dir q skip_matches r of
        None \<Rightarrow> []
      | Some (mkpq, mkpr, mkp3d, valid) \<Rightarrow> [mask mkp3d valid])"
  by (simp add: onfly_view_def onfly_out_def append_view_def Let_def
      split: sum.splits option.splits prod.splits)

lemma onfly_view_num:
  "num_matches (onfly_view e dataset_dir q skip_matches i r st) =
     num_matches st + view_raw (onfly_out e dataset_dir q skip_matches r)"
  by (simp add: onfly_view_def onfly_out_def append_view_def view_raw_def Let_def
      split: sum.splits option.splits prod.splits)

lemma onfly_view_failed:
  "failed (onfly_view e dataset_dir q skip_matches i r st) =
     failed st @ (if onfly_out e dataset_dir q skip_matches r = None then [(q, r)] else [])"
  by (simp add: onfly_view_def onfly_out_def append_view_def Let_def
      split: sum.splits option.splits prod.splits)

lemma onfly_loop_indices:
  "concat (all_indices (onfly_loop e dataset_dir q skip_matches irs st)) =
     concat (all_indices st) @
     concat (map (\<lambda>ir. replicate (view_n (onfly_out e dataset_dir q skip_matches (snd ir))) (fst ir)) irs)"
  by (induction irs arbitrary: st)
     (auto simp: onfly_view_indices view_n_def split: option.splits)

lemma onfly_loop_mkpq:
  "concat (all_mkpq (onfly_loop e dataset_dir q skip_matches irs st)) =
     concat (all_mkpq st) @
     concat (map (\<lambda>ir. view_kq (onfly_out e dataset_dir q skip_matches (snd ir))) irs)"
  by (induction irs arbitrary: st)
     (auto simp: onfly_view_mkpq view_kq_def split: option.splits)

lemma onfly_loop_mkpr:
  "concat (all_mkpr (onfly_loop e dataset_dir q skip_matches irs st)) =
     concat (all_mkpr st) @
     concat (map (\<lambda>ir. view_kr (onfly_out e dataset_dir q skip_matches (snd ir))) irs)"
  by (induction irs arbitrary: st)
     (auto simp: onfly_view_mkpr view_kr_def split: option.splits)

lemma onfly_loop_mkp3d:
  "concat (all_mkp3d (onfly_loop e dataset_dir q skip_matches irs st)) =
     concat (all_mkp3d st) @
     concat (map (\<lambda>ir. view_3d (onfly_out e dataset_dir q skip_matches (snd ir))) irs)"
  by (induction irs arbitrary: st)
     (auto simp: onfly_view_mkp3d view_3d_def split: option.splits)

lemma onfly_loop_num:
  "num_matches (onfly_loop e dataset_dir q skip_matches irs st) =
     num_matches st +
     sum_list (map (\<lambda>ir. view_raw (onfly_out e dataset_dir q skip_matches (snd ir))) irs)"
  by (induction irs arbitrary: st) (auto simp: onfly_view_num)

lemma onfly_loop_failed:
  "failed (onfly_loop e dataset_dir q skip_matches irs st) =
     failed st @
     map (\<lambda>ir. (q, snd ir))
       (filter (\<lambda>ir. onfly_out e dataset_dir q skip_matches (snd ir) = None) irs)"
  by (induction irs arbitrary: st) (auto simp: onfly_view_failed)


section \<open>The loop of pose\_from\_cluster\<close>

lemma cluster_view_Inr:
  "cluster_view e dataset_dir q kpq skip i r a = Inr a' \<Longrightarrow>
     a' = (case cluster_out e dataset_dir q kpq skip r of
             None \<Rightarrow> a
           | Some (mkpq, mkpr, mkp3d, valid) \<Rightarrow> append_view i mkpq mkpr mkp3d valid a)"
  by (auto simp: cluster_view_def cluster_out_def Let_def
      split: sum.splits option.splits prod.splits if_splits)

lemma cluster_loop_indices:
  "cluster_loop e dataset_dir q kpq skip irs a = Inr a' \<Longrightarrow>
   concat (all_indices a') =
     concat (all_indices a) @
     concat (map (\<lambda>ir. replicate (view_n (cluster_out e dataset_dir q kpq skip (snd ir))) (fst ir)) irs)"
proof (induction irs arbitrary: a)
  case Nil
  then show ?case by simp
next
  case (Cons ir irs)
  obtain i r where ir: "ir = (i, r)" by (cases ir)
  from Cons.prems obtain a1 where v: "cluster_view e dataset_dir q kpq skip i r a = Inr a1"
      and l: "cluster_loop e dataset_dir q kpq skip irs a1 = Inr a'"
    unfolding ir by (auto split: sum.splits)
  have "concat (all_indices a1) = concat (all_indices a) @
      replicate (view_n (cluster_out e dataset_dir q kpq skip r)) i"
    unfolding cluster_view_Inr[OF v]
    by (simp add: view_n_def append_view_def split: option.splits)
  with Cons.IH[OF l] show ?case by (simp add: ir)
qed




lemma cluster_loop_num:
  "cluster_loop e dataset_dir q kpq skip irs a = Inr a' \<Longrightarrow>
   num_matches a' =
     num_matches a +
     sum_list (map (\<lambda>ir. view_raw (cluster_out e dataset_dir q kpq skip (snd ir))) irs)"
proof (induction irs arbitrary: a)
  case Nil
  then show ?case by simp
next
  case (Cons ir irs)
  obtain i r where ir: "ir = (i, r)" by (cases ir)
  from Cons.prems obtain a1 where v: "cluster_view e dataset_dir q kpq skip i r a = Inr a1"
      and l: "cluster_loop e dataset_dir q kpq skip irs a1 = Inr a'"
    unfolding ir by (auto split: sum.splits)
  have "num_matches a1 = num_matches a + view_raw (cluster_out e dataset_dir q kpq skip r)"
    unfolding cluster_view_Inr[OF v]
    by (simp add: view_raw_def append_view_def split: option.splits)
  with Cons.IH[OF l] show ?case by (simp add: ir)
qed

section \<open>Blocks of correspondences\<close>
















section \<open>The example world, evaluated\<close>

lemma ex_interpolate:
  "interpolate_scan flat_sampler depth_scan [(Fin 1, Fin 1)] = Inr ([[Fin 2, Fin 2, Fin 2]], [True])"
  by (simp add: interpolate_scan_def Let_def normalize_kp_def norm_coord_def fl_sub_def
      in_bounds_def grid_rows_def flat_sampler_def depth_scan_def where_nan_def upt_rec)

lemma ex_transform:
  "transform_points identity_pose [[Fin 2, Fin 2, Fin 2]] = Inr [[Fin 2, Fin 2, Fin 2]]"
  by (simp add: transform_points_def rot_block_def trans_col_def identity_pose_def dot3)

lemma ex_lift:
  "lift_to_3d ex_env ex_dir ex_r [(Fin 1, Fin 1)] = Inr ([[Fin 2, Fin 2, Fin 2]], [True])"
proof -
  have "loadmat ex_env p = Inr depth_scan" for p by (simp add: ex_env_def)
  moreover have "grid_sample ex_env = flat_sampler" by (simp add: ex_env_def)
  ultimately show ?thesis
    by (simp add: lift_to_3d_def ex_interpolate ex_scan_pose ex_transform)
qed






section \<open>Annotations and retrieval order\<close>





section \<open>A view that hands nothing to the accumulators\<close>

lemma concat_map_drop:
  "(\<And>x. x \<in> set xs \<Longrightarrow> \<not> P x \<Longrightarrow> f x = []) \<Longrightarrow>
     concat (map f (filter P xs)) = concat (map f xs)"
  by (induction xs) auto

lemma sum_list_map_drop:
  "(\<And>x. x \<in> set xs \<Longrightarrow> \<not> P x \<Longrightarrow> f x = (0::nat)) \<Longrightarrow>
     sum_list (map f (filter P xs)) = sum_list (map f xs)"
  by (induction xs) auto

lemma enum_at:
  "ir \<in> set (List.enumerate 0 xs) \<Longrightarrow> fst ir = i \<Longrightarrow> snd ir = xs ! i"
  by (auto simp: in_set_enumerate_eq)

lemma enum_mem: "i < length xs \<Longrightarrow> (i, xs ! i) \<in> set (List.enumerate 0 xs)"
  by (simp add: in_set_enumerate_eq)

lemma onfly_dropped_view:
  assumes i: "i < length retrieved"
      and n: "onfly_out e dataset_dir q skip_matches (retrieved ! i) = None"
  shows "(q, retrieved ! i) \<in>
           set (failed (onfly_loop e dataset_dir q skip_matches (List.enumerate 0 retrieved) onfly_init)) \<and>
         i \<notin> set (concat (all_indices
           (onfly_loop e dataset_dir q skip_matches (List.enumerate 0 retrieved) onfly_init))) \<and>
         same_aggregate
           (onfly_loop e dataset_dir q skip_matches (List.enumerate 0 retrieved) onfly_init)
           (onfly_loop e dataset_dir q skip_matches (drop_view i (List.enumerate 0 retrieved)) onfly_init)"
proof -
  let ?irs = "List.enumerate 0 retrieved"
  let ?out = "\<lambda>ir. onfly_out e dataset_dir q skip_matches (snd ir)"
  have none: "?out ir = None" if "ir \<in> set ?irs" "\<not> fst ir \<noteq> i" for ir
    using enum_at[OF that(1), of i] that(2) n by simp
  have f: "(q, retrieved ! i) \<in> set (failed (onfly_loop e dataset_dir q skip_matches ?irs onfly_init))"
    unfolding onfly_loop_failed using enum_mem[OF i] n by force
  have x: "i \<notin> set (concat (all_indices (onfly_loop e dataset_dir q skip_matches ?irs onfly_init)))"
    unfolding onfly_loop_indices using none by (auto simp: onfly_init_def view_n_def)
  have vn: "view_n None = 0" "view_raw None = 0" "view_kq None = []" "view_kr None = []"
      "view_3d None = []"
    by (simp_all add: view_n_def view_raw_def view_kq_def view_kr_def view_3d_def)
  have c1: "concat (map (\<lambda>ir. view_kq (?out ir)) (filter (\<lambda>ir. fst ir \<noteq> i) ?irs)) =
      concat (map (\<lambda>ir. view_kq (?out ir)) ?irs)"
    by (rule concat_map_drop) (simp add: none vn)
  have c2: "concat (map (\<lambda>ir. view_kr (?out ir)) (filter (\<lambda>ir. fst ir \<noteq> i) ?irs)) =
      concat (map (\<lambda>ir. view_kr (?out ir)) ?irs)"
    by (rule concat_map_drop) (simp add: none vn)
  have c3: "concat (map (\<lambda>ir. view_3d (?out ir)) (filter (\<lambda>ir. fst ir \<noteq> i) ?irs)) =
      concat (map (\<lambda>ir. view_3d (?out ir)) ?irs)"
    by (rule concat_map_drop) (simp add: none vn)
  have c4: "concat (map (\<lambda>ir. replicate (view_n (?out ir)) (fst ir)) (filter (\<lambda>ir. fst ir \<noteq> i) ?irs)) =
      concat (map (\<lambda>ir. replicate (view_n (?out ir)) (fst ir)) ?irs)"
    by (rule concat_map_drop) (simp add: none vn)
  have c5: "sum_list (map (\<lambda>ir. view_raw (?out ir)) (filter (\<lambda>ir. fst ir \<noteq> i) ?irs)) =
      sum_list (map (\<lambda>ir. view_raw (?out ir)) ?irs)"
    by (rule sum_list_map_drop) (simp add: none vn)
  have s: "same_aggregate (onfly_loop e dataset_dir q skip_matches ?irs onfly_init)
           (onfly_loop e dataset_dir q skip_matches (drop_view i ?irs) onfly_init)"
    unfolding same_aggregate_def drop_view_def onfly_loop_indices onfly_loop_mkpq onfly_loop_mkpr
      onfly_loop_mkp3d onfly_loop_num c1 c2 c3 c4 c5
    by simp
  from f x s show ?thesis by blast
qed

lemma cluster_loop_drop:
  assumes "cluster_loop e dataset_dir q kpq skip irs a = Inr a'"
      and "\<And>ir. ir \<in> set irs \<Longrightarrow> fst ir = i \<Longrightarrow> cluster_out e dataset_dir q kpq skip (snd ir) = None"
  shows "cluster_loop e dataset_dir q kpq skip (drop_view i irs) a = Inr a'"
  using assms
proof (induction irs arbitrary: a)
  case Nil
  then show ?case by (simp add: drop_view_def)
next
  case (Cons ir irs)
  obtain j r where ir: "ir = (j, r)" by (cases ir)
  from Cons.prems(1) obtain a1 where v: "cluster_view e dataset_dir q kpq skip j r a = Inr a1"
      and l: "cluster_loop e dataset_dir q kpq skip irs a1 = Inr a'"
    unfolding ir by (auto split: sum.splits)
  have IH: "cluster_loop e dataset_dir q kpq skip (drop_view i irs) a1 = Inr a'"
    using Cons.IH[OF l] Cons.prems(2) by simp
  show ?case
  proof (cases "j = i")
    case True
    then have "cluster_out e dataset_dir q kpq skip r = None"
      using Cons.prems(2)[of ir] ir by simp
    then have "a1 = a" using cluster_view_Inr[OF v] by simp
    with IH True show ?thesis by (simp add: drop_view_def ir)
  next
    case False
    with IH v show ?thesis by (simp add: drop_view_def ir)
  qed
qed

lemma cluster_dropped_view:
  assumes l: "cluster_loop e dataset_dir q kpq skip (List.enumerate 0 retrieved) agg_init = Inr a"
      and n: "cluster_out e dataset_dir q kpq skip (retrieved ! i) = None"
  shows "i \<notin> set (concat (all_indices a)) \<and>
         cluster_loop e dataset_dir q kpq skip (drop_view i (List.enumerate 0 retrieved)) agg_init = Inr a"
proof -
  let ?irs = "List.enumerate 0 retrieved"
  have none: "cluster_out e dataset_dir q kpq skip (snd ir) = None"
    if "ir \<in> set ?irs" "fst ir = i" for ir
    using enum_at[OF that] n by simp
  have "i \<notin> set (concat (all_indices a))"
    unfolding cluster_loop_indices[OF l] using none by (auto simp: agg_init_def view_n_def)
  moreover have "cluster_loop e dataset_dir q kpq skip (drop_view i ?irs) agg_init = Inr a"
    using cluster_loop_drop[OF l] none by blast
  ultimately show ?thesis by blast
qed


section \<open>The second example world, evaluated\<close>

lemma get_scan_pose_cong:
  assumes "files e' = files e" and "fromstring e' = fromstring e"
  shows "get_scan_pose e' dataset_dir r = get_scan_pose e dataset_dir r"
  unfolding get_scan_pose_def assms by (rule refl)

lemma ex2_scan_pose: "get_scan_pose ex_env2 ex_dir ex_r = Inr identity_pose"
  using get_scan_pose_cong[of ex_env2 ex_env ex_dir ex_r] ex_scan_pose
  by (simp add: ex_env2_def)

lemma ex2_matcher:
  "matcher ex_env2 (path_join ex_dir ex_q) (path_join ex_dir ex_r) =
     Inr [((Fin 1, Fin 1), (Fin 1, Fin 1))]"
  "matcher ex_env2 (path_join ex_dir ex_q) (path_join ex_dir ex_missing) = Inr []"
  by (simp_all add: ex_env2_def path_join_def ex_dir_def ex_r_def ex_missing_def)

lemma ex2_loadmat:
  "loadmat ex_env2 (path_join ex_dir (ex_r @ ''.mat'')) = Inr depth_scan"
  "loadmat ex_env2 (path_join ex_dir (ex_missing @ ''.mat'')) = Inl FileNotFoundError"
  by (simp_all add: ex_env2_def path_join_def ex_dir_def ex_r_def ex_missing_def)

lemma ex2_lift:
  "lift_to_3d ex_env2 ex_dir ex_r [(Fin 1, Fin 1)] = Inr ([[Fin 2, Fin 2, Fin 2]], [True])"
  "lift_to_3d ex_env2 ex_dir ex_missing mkpr = Inl FileNotFoundError"
proof -
  have g: "grid_sample ex_env2 = flat_sampler" by (simp add: ex_env2_def ex_env_def)
  show "lift_to_3d ex_env2 ex_dir ex_r [(Fin 1, Fin 1)] = Inr ([[Fin 2, Fin 2, Fin 2]], [True])"
    by (simp add: lift_to_3d_def ex2_loadmat g ex_interpolate ex2_scan_pose ex_transform)
  show "lift_to_3d ex_env2 ex_dir ex_missing mkpr = Inl FileNotFoundError"
    by (simp add: lift_to_3d_def ex2_loadmat)
qed

lemma ex2_elapsed: "elapsed ex_env2 a b = Fin 0"
  by (simp add: ex_env2_def ex_env_def)

lemma ex2_onfly_loop_raise:
  "onfly_loop ex_env2 ex_dir ex_q 0 (List.enumerate 0 [ex_missing, ex_r]) onfly_init =
     \<lparr>all_mkpq = [[(Fin 1, Fin 1)]], all_mkpr = [[(Fin 1, Fin 1)]],
      all_mkp3d = [[[Fin 2, Fin 2, Fin 2]]], all_indices = [[1]], num_matches = 1,
      times = [Fin 0, Fin 0], failed = [(ex_q, ex_missing)]\<rparr>"
  by (simp add: onfly_view_def ex2_matcher ex2_elapsed onfly_try_def ex2_lift onfly_init_def
      append_view_def mask_def count_nonzero_def Let_def)

lemma ex2_onfly_loop_skip:
  "onfly_loop ex_env2 ex_dir ex_q 1 (List.enumerate 0 [ex_missing, ex_r]) onfly_init =
     \<lparr>all_mkpq = [[(Fin 1, Fin 1)]], all_mkpr = [[(Fin 1, Fin 1)]],
      all_mkp3d = [[[Fin 2, Fin 2, Fin 2]]], all_indices = [[1]], num_matches = 1,
      times = [Fin 0, Fin 0], failed = [(ex_q, ex_missing)]\<rparr>"
  by (simp add: onfly_view_def ex2_matcher ex2_elapsed onfly_try_def ex2_lift onfly_init_def
      append_view_def mask_def count_nonzero_def Let_def)

lemma ex2_match_file:
  "match_file ex_env2 (names_to_pair ex_env2 ex_q ex_r) = Some [0]"
  "match_file ex_env2 (names_to_pair ex_env2 ex_q ex_missing) = Some [- 1]"
  by (simp_all add: ex_env2_def ex_env_def ex_q_def ex_r_def ex_missing_def)

lemma ex2_cluster_loop:
  "cluster_loop ex_env2 ex_dir ex_q [(Fin 1, Fin 1)] (Some 1) (List.enumerate 0 [ex_missing, ex_r])
     agg_init =
     Inr \<lparr>all_mkpq = [[(Fin 1, Fin 1)]], all_mkpr = [[(Fin 1, Fin 1)]],
          all_mkp3d = [[[Fin 2, Fin 2, Fin 2]]], all_indices = [[1]], num_matches = 1\<rparr>"
proof -
  have f: "feature_file ex_env2 n = Some [(Fin 1, Fin 1)]" for n
    by (simp add: ex_env2_def ex_env_def)
  show ?thesis
    by (simp add: cluster_view_def f ex2_match_file skip_view_def bool_index_def int_index_def
        ex2_lift agg_init_def append_view_def mask_def count_nonzero_def Let_def)
qed


section \<open>Failing and weak views\<close>

lemma lift_to_3d_Inr_cases:
  "lift_to_3d e dataset_dir r mkpr = Inr (g, valid) \<Longrightarrow>
     \<exists>scan_r mkp3d Tr.
       loadmat e (path_join dataset_dir (r @ ''.mat'')) = Inr scan_r \<and>
       interpolate_scan (grid_sample e) scan_r mkpr = Inr (mkp3d, valid) \<and>
       get_scan_pose e dataset_dir r = Inr Tr \<and> transform_points Tr mkp3d = Inr g"
  by (auto simp: lift_to_3d_def split: sum.splits prod.splits)

lemma view_raises_out:
  assumes "view_raises e dataset_dir q skip_matches r"
  shows "onfly_out e dataset_dir q skip_matches r = None"
proof (cases "matcher e (path_join dataset_dir q) (path_join dataset_dir r)")
  case (Inl err)
  then show ?thesis by (simp add: onfly_out_def)
next
  case (Inr matches)
  with assms have n: "\<not> int (length matches) < skip_matches"
    and c: "(case loadmat e (path_join dataset_dir (r @ ''.mat'')) of
             Inl err \<Rightarrow> True
           | Inr scan_r \<Rightarrow>
               (case interpolate_scan (grid_sample e) scan_r (map snd matches) of
                  Inl err \<Rightarrow> True
                | Inr (mkp3d, valid) \<Rightarrow>
                    (case get_scan_pose e dataset_dir r of
                       Inl err \<Rightarrow> True
                     | Inr Tr \<Rightarrow>
                         (case transform_points Tr mkp3d of
                            Inl err \<Rightarrow> True
                          | Inr g \<Rightarrow> False))))"
    by (simp_all add: view_raises_def)
  have "lift_to_3d e dataset_dir r (map snd matches) \<noteq> Inr x" for x
  proof
    assume "lift_to_3d e dataset_dir r (map snd matches) = Inr x"
    then obtain scan_r mkp3d valid Tr g where
        "loadmat e (path_join dataset_dir (r @ ''.mat'')) = Inr scan_r"
        "interpolate_scan (grid_sample e) scan_r (map snd matches) = Inr (mkp3d, valid)"
        "get_scan_pose e dataset_dir r = Inr Tr" "transform_points Tr mkp3d = Inr g"
      using lift_to_3d_Inr_cases[of e dataset_dir r "map snd matches" "fst x" "snd x"] by auto
    with c show False by simp
  qed
  then obtain err where "lift_to_3d e dataset_dir r (map snd matches) = Inl err"
    by (cases "lift_to_3d e dataset_dir r (map snd matches)") auto
  then show ?thesis using Inr n by (simp add: onfly_out_def onfly_try_def Let_def)
qed

lemma few_matches_out:
  "matcher e (path_join dataset_dir q) (path_join dataset_dir r) = Inr matches \<Longrightarrow>
   int (length matches) < skip_matches \<Longrightarrow> onfly_out e dataset_dir q skip_matches r = None"
  by (simp add: onfly_out_def onfly_try_def)

lemma skipped_out:
  "match_file e (names_to_pair e q r) = Some m \<Longrightarrow>
   int (count_nonzero (map (\<lambda>x. - 1 < x) m)) < k \<Longrightarrow>
   cluster_out e dataset_dir q kpq (Some k) r = None"
  by (auto simp: cluster_out_def skip_view_def Let_def split: option.splits)

text \<open>
  C4. On the fly, a reference view whose processing raises is recorded in the failure
  list, no correspondence carries its position, and the loop goes on: the aggregate is
  the one the loop builds over the other views alone, each at its own position.
\<close>

theorem raising_view_is_isolated:
  assumes "i < length retrieved"
      and "view_raises e dataset_dir q skip_matches (retrieved ! i)"
  shows "(q, retrieved ! i) \<in>
           set (failed (onfly_loop e dataset_dir q skip_matches (List.enumerate 0 retrieved) onfly_init)) \<and>
         i \<notin> set (concat (all_indices
           (onfly_loop e dataset_dir q skip_matches (List.enumerate 0 retrieved) onfly_init))) \<and>
         same_aggregate
           (onfly_loop e dataset_dir q skip_matches (List.enumerate 0 retrieved) onfly_init)
           (onfly_loop e dataset_dir q skip_matches (drop_view i (List.enumerate 0 retrieved)) onfly_init)"
  using onfly_dropped_view[OF assms(1) view_raises_out[OF assms(2)]] .

theorem raising_view_is_isolated_witness:
  "view_raises ex_env2 ex_dir ex_q 0 ([ex_missing, ex_r] ! 0) \<and>
   (ex_q, [ex_missing, ex_r] ! 0) \<in>
      set (failed (onfly_loop ex_env2 ex_dir ex_q 0 (List.enumerate 0 [ex_missing, ex_r]) onfly_init)) \<and>
   0 \<notin> set (concat (all_indices
      (onfly_loop ex_env2 ex_dir ex_q 0 (List.enumerate 0 [ex_missing, ex_r]) onfly_init))) \<and>
   same_aggregate
      (onfly_loop ex_env2 ex_dir ex_q 0 (List.enumerate 0 [ex_missing, ex_r]) onfly_init)
      (onfly_loop ex_env2 ex_dir ex_q 0 (drop_view 0 (List.enumerate 0 [ex_missing, ex_r])) onfly_init) \<and>
   concat (all_indices
      (onfly_loop ex_env2 ex_dir ex_q 0 (List.enumerate 0 [ex_missing, ex_r]) onfly_init)) = [1]"
proof -
  have r: "view_raises ex_env2 ex_dir ex_q 0 ([ex_missing, ex_r] ! 0)"
    by (simp add: view_raises_def ex2_matcher ex2_loadmat)
  have l: "(0::nat) < length [ex_missing, ex_r]" by simp
  have c: "concat (all_indices
      (onfly_loop ex_env2 ex_dir ex_q 0 (List.enumerate 0 [ex_missing, ex_r]) onfly_init)) = [1]"
    unfolding ex2_onfly_loop_raise by simp
  from raising_view_is_isolated [OF l r] r c show ?thesis by blast
qed

text \<open>
  C7. With precomputed matches, a view whose number of valid matches is below \<open>skip\<close>
  leaves the accumulators as they are: no correspondence carries its position and the
  loop returns what it returns over the other views alone. On the fly, a view for which
  the matcher returns fewer than \<open>skip_matches\<close> matches is recorded in the failure list
  and the aggregate is the one of the other views alone.
\<close>

theorem weak_view_contributes_nothing:
  "(cluster_loop e dataset_dir q kpq skip (List.enumerate 0 retrieved) agg_init = Inr a \<and>
    i < length retrieved \<and>
    match_file e (names_to_pair e q (retrieved ! i)) = Some m \<and> skip = Some k \<and>
    int (count_nonzero (map (\<lambda>x. - 1 < x) m)) < k \<longrightarrow>
      i \<notin> set (concat (all_indices a)) \<and>
      cluster_loop e dataset_dir q kpq skip (drop_view i (List.enumerate 0 retrieved)) agg_init = Inr a) \<and>
   (i < length retrieved \<and>
    matcher e (path_join dataset_dir q) (path_join dataset_dir (retrieved ! i)) = Inr matches \<and>
    int (length matches) < skip_matches \<longrightarrow>
      (q, retrieved ! i) \<in>
        set (failed (onfly_loop e dataset_dir q skip_matches (List.enumerate 0 retrieved) onfly_init)) \<and>
      i \<notin> set (concat (all_indices
        (onfly_loop e dataset_dir q skip_matches (List.enumerate 0 retrieved) onfly_init))) \<and>
      same_aggregate
        (onfly_loop e dataset_dir q skip_matches (List.enumerate 0 retrieved) onfly_init)
        (onfly_loop e dataset_dir q skip_matches (drop_view i (List.enumerate 0 retrieved)) onfly_init))"
proof (intro conjI impI)
  assume h: "cluster_loop e dataset_dir q kpq skip (List.enumerate 0 retrieved) agg_init = Inr a \<and>
    i < length retrieved \<and>
    match_file e (names_to_pair e q (retrieved ! i)) = Some m \<and> skip = Some k \<and>
    int (count_nonzero (map (\<lambda>x. - 1 < x) m)) < k"
  then have n: "cluster_out e dataset_dir q kpq skip (retrieved ! i) = None"
    using skipped_out[of e q "retrieved ! i" m k dataset_dir kpq] by simp
  from h have l: "cluster_loop e dataset_dir q kpq skip (List.enumerate 0 retrieved) agg_init = Inr a"
    by blast
  from cluster_dropped_view[OF l n]
  show "i \<notin> set (concat (all_indices a))"
    and "cluster_loop e dataset_dir q kpq skip (drop_view i (List.enumerate 0 retrieved)) agg_init = Inr a"
    by blast+
next
  assume h: "i < length retrieved \<and>
    matcher e (path_join dataset_dir q) (path_join dataset_dir (retrieved ! i)) = Inr matches \<and>
    int (length matches) < skip_matches"
  then have n: "onfly_out e dataset_dir q skip_matches (retrieved ! i) = None"
    using few_matches_out by blast
  from h have i: "i < length retrieved" by blast
  from onfly_dropped_view[OF i n]
  show "(q, retrieved ! i) \<in>
        set (failed (onfly_loop e dataset_dir q skip_matches (List.enumerate 0 retrieved) onfly_init))"
    and "i \<notin> set (concat (all_indices
        (onfly_loop e dataset_dir q skip_matches (List.enumerate 0 retrieved) onfly_init)))"
    and "same_aggregate
        (onfly_loop e dataset_dir q skip_matches (List.enumerate 0 retrieved) onfly_init)
        (onfly_loop e dataset_dir q skip_matches (drop_view i (List.enumerate 0 retrieved)) onfly_init)"
    by blast+
qed

theorem weak_view_contributes_nothing_witness:
  "cluster_loop ex_env2 ex_dir ex_q [(Fin 1, Fin 1)] (Some 1) (List.enumerate 0 [ex_missing, ex_r])
      agg_init =
     Inr \<lparr>all_mkpq = [[(Fin 1, Fin 1)]], all_mkpr = [[(Fin 1, Fin 1)]],
          all_mkp3d = [[[Fin 2, Fin 2, Fin 2]]], all_indices = [[1]], num_matches = 1\<rparr> \<and>
   match_file ex_env2 (names_to_pair ex_env2 ex_q ([ex_missing, ex_r] ! 0)) = Some [- 1] \<and>
   int (count_nonzero (map (\<lambda>x. - 1 < x) [- 1 :: int])) < 1 \<and>
   cluster_loop ex_env2 ex_dir ex_q [(Fin 1, Fin 1)] (Some 1)
      (drop_view 0 (List.enumerate 0 [ex_missing, ex_r])) agg_init =
     Inr \<lparr>all_mkpq = [[(Fin 1, Fin 1)]], all_mkpr = [[(Fin 1, Fin 1)]],
          all_mkp3d = [[[Fin 2, Fin 2, Fin 2]]], all_indices = [[1]], num_matches = 1\<rparr> \<and>
   matcher ex_env2 (path_join ex_dir ex_q) (path_join ex_dir ([ex_missing, ex_r] ! 0)) = Inr [] \<and>
   (ex_q, [ex_missing, ex_r] ! 0) \<in>
      set (failed (onfly_loop ex_env2 ex_dir ex_q 1 (List.enumerate 0 [ex_missing, ex_r]) onfly_init)) \<and>
   0 \<notin> set (concat (all_indices
      (onfly_loop ex_env2 ex_dir ex_q 1 (List.enumerate 0 [ex_missing, ex_r]) onfly_init))) \<and>
   same_aggregate
      (onfly_loop ex_env2 ex_dir ex_q 1 (List.enumerate 0 [ex_missing, ex_r]) onfly_init)
      (onfly_loop ex_env2 ex_dir ex_q 1 (drop_view 0 (List.enumerate 0 [ex_missing, ex_r])) onfly_init)"
proof -
  note t = weak_view_contributes_nothing [where e = ex_env2 and dataset_dir = ex_dir and q = ex_q
      and kpq = "[(Fin 1, Fin 1)]" and skip = "Some 1" and retrieved = "[ex_missing, ex_r]"
      and i = 0 and m = "[- 1]" and k = 1 and matches = "[]" and skip_matches = 1
      and a = "\<lparr>all_mkpq = [[(Fin 1, Fin 1)]], all_mkpr = [[(Fin 1, Fin 1)]],
          all_mkp3d = [[[Fin 2, Fin 2, Fin 2]]], all_indices = [[1]], num_matches = 1\<rparr>"]
  have l: "(0::nat) < length [ex_missing, ex_r]" by simp
  have m: "match_file ex_env2 (names_to_pair ex_env2 ex_q ([ex_missing, ex_r] ! 0)) = Some [- 1]"
    by (simp add: ex2_match_file)
  have c: "int (count_nonzero (map (\<lambda>x. - 1 < x) [- 1 :: int])) < 1"
    by (simp add: count_nonzero_def)
  have g: "matcher ex_env2 (path_join ex_dir ex_q) (path_join ex_dir ([ex_missing, ex_r] ! 0)) = Inr []"
    by (simp add: ex2_matcher)
  have z: "int (length ([] :: (kp2 \<times> kp2) list)) < 1" by simp
  from t ex2_cluster_loop l m c g z show ?thesis by blast
qed

section \<open>Queries without matches\<close>

lemma lift_to_3d_cong:
  assumes "loadmat e' = loadmat e" and "grid_sample e' = grid_sample e"
      and "files e' = files e" and "fromstring e' = fromstring e"
  shows "lift_to_3d e' dataset_dir r mkpr = lift_to_3d e dataset_dir r mkpr"
  unfolding lift_to_3d_def get_scan_pose_cong[OF assms(3,4)] assms(1,2) by (rule refl)

lemma lift_to_3d_solver:
  "lift_to_3d (e\<lparr>solver := sv\<rparr>) dataset_dir r mkpr = lift_to_3d e dataset_dir r mkpr"
  by (rule lift_to_3d_cong) simp_all

lemma onfly_view_solver:
  "onfly_view (e\<lparr>solver := sv\<rparr>) dataset_dir q skip_matches i r st =
     onfly_view e dataset_dir q skip_matches i r st"
proof -
  have m: "matcher (e\<lparr>solver := sv\<rparr>) = matcher e" by simp
  have t: "elapsed (e\<lparr>solver := sv\<rparr>) = elapsed e" by simp
  show ?thesis
    unfolding onfly_view_def onfly_try_def lift_to_3d_solver m t by (rule refl)
qed

lemma onfly_loop_solver:
  "onfly_loop (e\<lparr>solver := sv\<rparr>) dataset_dir q skip_matches irs st =
     onfly_loop e dataset_dir q skip_matches irs st"
  by (induction irs arbitrary: st) (auto simp: onfly_view_solver)

lemma onfly_no_matches:
  assumes "imread e (path_join dataset_dir q) = Some (h, w)"
      and "num_matches (onfly_loop e dataset_dir q skip_matches (List.enumerate 0 retrieved) onfly_init) = 0"
  shows "pose_from_cluster_onfly_matching (e\<lparr>solver := sv\<rparr>) dataset_dir q retrieved ps rthres
           skip_matches =
         Inr (None,
              failed (onfly_loop e dataset_dir q skip_matches (List.enumerate 0 retrieved) onfly_init),
              times (onfly_loop e dataset_dir q skip_matches (List.enumerate 0 retrieved) onfly_init),
              ps)"
  using assms by (simp add: pose_from_cluster_onfly_matching_def onfly_loop_solver Let_def)

lemma solver_same: "e\<lparr>solver := solver e\<rparr> = e"
  by simp

lemma onfly_query_poses:
  assumes "pose_from_cluster_onfly_matching e dataset_dir q' retrieved ps rthres skip_matches =
             Inr (res, fs, ts, ps')"
      and "q \<noteq> q'"
  shows "ps' q = ps q"
  using assms
  by (auto simp: pose_from_cluster_onfly_matching_def Let_def
      split: option.splits sum.splits prod.splits if_splits)

lemma onfly_queries_other:
  assumes "onfly_queries e dataset_dir rthres skip_matches rd st = Inr st'"
      and "q \<notin> fst ` set rd"
  shows "run_poses st' q = run_poses st q \<and> loc (run_logs st') q = loc (run_logs st) q"
  using assms
proof (induction rd arbitrary: st)
  case Nil
  then show ?case by simp
next
  case (Cons a rd)
  obtain q' retrieved where a: "a = (q', retrieved)" by (cases a)
  from Cons.prems(2) have ne: "q \<noteq> q'" and notin: "q \<notin> fst ` set rd" by (auto simp: a)
  from Cons.prems(1) obtain res fs ts ps' where
      p: "pose_from_cluster_onfly_matching e dataset_dir q' retrieved (run_poses st) rthres
            skip_matches = Inr (res, fs, ts, ps')"
      and r: "onfly_queries e dataset_dir rthres skip_matches rd
            \<lparr>run_poses = ps',
             run_logs = \<lparr>loc = (loc (run_logs st))(q' \<mapsto> res),
                         failed_pairs = failed_pairs (run_logs st) @ fs\<rparr>,
             match_times = match_times st @ ts\<rparr> = Inr st'"
    unfolding a by (auto split: sum.splits prod.splits)
  from Cons.IH[OF r notin] onfly_query_poses[OF p ne] ne show ?case by simp
qed

lemma onfly_queries_unlocalized:
  assumes "onfly_queries e dataset_dir rthres skip_matches rd st = Inr st'"
      and "distinct (map fst rd)" and "(q, retrieved) \<in> set rd"
      and "num_matches (onfly_loop e dataset_dir q skip_matches (List.enumerate 0 retrieved) onfly_init) = 0"
  shows "run_poses st' q = run_poses st q \<and> loc (run_logs st') q = Some None"
  using assms(1,2,3)
proof (induction rd arbitrary: st)
  case Nil
  then show ?case by simp
next
  case (Cons a rd)
  obtain q' retrieved' where a: "a = (q', retrieved')" by (cases a)
  from Cons.prems(1) obtain res fs ts ps' where
      p: "pose_from_cluster_onfly_matching e dataset_dir q' retrieved' (run_poses st) rthres
            skip_matches = Inr (res, fs, ts, ps')"
      and r: "onfly_queries e dataset_dir rthres skip_matches rd
            \<lparr>run_poses = ps',
             run_logs = \<lparr>loc = (loc (run_logs st))(q' \<mapsto> res),
                         failed_pairs = failed_pairs (run_logs st) @ fs\<rparr>,
             match_times = match_times st @ ts\<rparr> = Inr st'"
    unfolding a by (auto split: sum.splits prod.splits)
  show ?case
  proof (cases "q' = q")
    case True
    with Cons.prems(2,3) have same: "retrieved' = retrieved" and notin: "q \<notin> fst ` set rd"
      by (auto simp: a rev_image_eqI)
    from p obtain h w where im: "imread e (path_join dataset_dir q) = Some (h, w)"
      unfolding True by (auto simp: pose_from_cluster_onfly_matching_def split: option.splits)
    from onfly_no_matches[OF im assms(4), of "solver e" "run_poses st" rthres] p
    have "res = None" "ps' = run_poses st"
      unfolding True same by simp_all
    with onfly_queries_other[OF r notin] True show ?thesis by simp
  next
    case False
    with Cons.prems(3) have mem: "(q, retrieved) \<in> set rd" by (simp add: a)
    from Cons.prems(2) have d: "distinct (map fst rd)" by simp
    from False have ne: "q \<noteq> q'" by blast
    from Cons.IH[OF r d mem] onfly_query_poses[OF p ne] show ?thesis by simp
  qed
qed

lemma write_poses_skip:
  "ps q = None \<Longrightarrow> write_poses queries ps = write_poses (filter (\<lambda>x. x \<noteq> q) queries) ps"
  by (induction queries) (auto simp: write_poses_def)


lemma ex2_matcher_r:
  "matcher ex_env2 a (path_join ex_dir ex_r) = Inr [((Fin 1, Fin 1), (Fin 1, Fin 1))]"
  by (simp add: ex_env2_def path_join_def ex_dir_def ex_r_def)

lemma ex2_matcher_missing:
  "matcher ex_env2 a (path_join ex_dir ex_missing) = Inr []"
  by (simp add: ex_env2_def path_join_def ex_dir_def ex_missing_def)

lemma ex2_imread: "imread ex_env2 p = Some (4, 6)"
  by (simp add: ex_env2_def ex_env_def)

lemma ex2_loop_nothing:
  "onfly_loop ex_env2 ex_dir ex_q 1 (List.enumerate 0 [ex_missing]) onfly_init =
     \<lparr>all_mkpq = [], all_mkpr = [], all_mkp3d = [], all_indices = [], num_matches = 0,
      times = [Fin 0], failed = [(ex_q, ex_missing)]\<rparr>"
  by (simp add: onfly_view_def ex2_matcher_missing ex2_elapsed onfly_try_def onfly_init_def Let_def)

lemma ex2_query2:
  "pose_from_cluster_onfly_matching ex_env2 ex_dir ex_q2 [ex_r] ps (Fin 48) 1 =
     Inr (Some \<lparr>db = [ex_r],
                PnP_ret = \<lparr>qvec = Some [Fin 1, Fin 0, Fin 0, Fin 0],
                           tvec = Some [Fin 0, Fin 0, Fin 0], inliers = [True],
                           cfg = Some (camera_cfg 4 6)\<rparr>,
                keypoints_query = [(Fin 1, Fin 1)], keypoints_db = [(Fin 1, Fin 1)],
                points_3d = [[Fin 2, Fin 2, Fin 2]], indices_db = [0], n_matches = 1\<rparr>,
          [], [Fin 0],
          ps(ex_q2 \<mapsto> ([Fin 1, Fin 0, Fin 0, Fin 0], [Fin 0, Fin 0, Fin 0])))"
proof -
  have s: "solver ex_env2 = ex_solver" by (simp add: ex_env2_def ex_env_def)
  have l: "onfly_loop ex_env2 ex_dir ex_q2 1 (List.enumerate 0 [ex_r]) onfly_init =
     \<lparr>all_mkpq = [[(Fin 1, Fin 1)]], all_mkpr = [[(Fin 1, Fin 1)]],
      all_mkp3d = [[[Fin 2, Fin 2, Fin 2]]], all_indices = [[0]], num_matches = 1,
      times = [Fin 0], failed = []\<rparr>"
    by (simp add: onfly_view_def ex2_matcher_r ex2_elapsed onfly_try_def ex2_lift onfly_init_def
        append_view_def mask_def count_nonzero_def Let_def)
  show ?thesis
    unfolding pose_from_cluster_onfly_matching_def l ex2_imread s
    by (simp add: ex_solver_def Let_def)
qed

lemma ex2_query1:
  "pose_from_cluster_onfly_matching ex_env2 ex_dir ex_q [ex_missing] ps (Fin 48) 1 =
     Inr (None, [(ex_q, ex_missing)], [Fin 0], ps)"
  unfolding pose_from_cluster_onfly_matching_def ex2_loop_nothing ex2_imread by simp

lemma ex_basename2: "basename ex_q2 = ''IMG_0732.JPG''"
  by (simp add: basename_def ex_q2_def)

lemma ex_q_ne: "ex_q \<noteq> ex_q2"
  by (simp add: ex_q_def ex_q2_def)

lemma ex2_run:
  "localize_with_matcher ex_env2 ex_dir [(ex_q, [ex_missing]), (ex_q2, [ex_r])] (Fin 48) 1 =
     Inr ([(''IMG_0732.JPG'', [Fin 1, Fin 0, Fin 0, Fin 0], [Fin 0, Fin 0, Fin 0])],
          \<lparr>loc = [ex_q \<mapsto> None,
                   ex_q2 \<mapsto> Some \<lparr>db = [ex_r],
                     PnP_ret = \<lparr>qvec = Some [Fin 1, Fin 0, Fin 0, Fin 0],
                                tvec = Some [Fin 0, Fin 0, Fin 0], inliers = [True],
                                cfg = Some (camera_cfg 4 6)\<rparr>,
                     keypoints_query = [(Fin 1, Fin 1)], keypoints_db = [(Fin 1, Fin 1)],
                     points_3d = [[Fin 2, Fin 2, Fin 2]], indices_db = [0], n_matches = 1\<rparr>],
            failed_pairs = [(ex_q, ex_missing)]\<rparr>)"
  using ex_q_ne
  by (simp add: localize_with_matcher_def run_init_def ex2_query1 ex2_query2 write_poses_def
      ex_basename2)

text \<open>
  C1, as the code has it. On the fly, when the views that were neither skipped nor failed
  brought no match at all (\<^verbatim>\<open>num_matches == 0\<close>), the aggregator returns no record whatever
  the solver would do, and leaves \<open>poses\<close> as it was; the orchestrator records \<open>None\<close> for
  the query and goes on with the next one; and in a run that returns, the pose table is
  the one written for the other queries alone.
\<close>

theorem no_matches_no_pose:
  assumes "imread e (path_join dataset_dir q) = Some (h, w)"
      and "num_matches (onfly_loop e dataset_dir q skip_matches (List.enumerate 0 retrieved) onfly_init) = 0"
  shows "pose_from_cluster_onfly_matching (e\<lparr>solver := sv\<rparr>) dataset_dir q retrieved ps rthres
           skip_matches =
         Inr (None,
              failed (onfly_loop e dataset_dir q skip_matches (List.enumerate 0 retrieved) onfly_init),
              times (onfly_loop e dataset_dir q skip_matches (List.enumerate 0 retrieved) onfly_init),
              ps) \<and>
         onfly_queries e dataset_dir rthres skip_matches ((q, retrieved) # rest) st =
           onfly_queries e dataset_dir rthres skip_matches rest
             \<lparr>run_poses = run_poses st,
              run_logs = \<lparr>loc = (loc (run_logs st))(q \<mapsto> None),
                          failed_pairs = failed_pairs (run_logs st) @
                            failed (onfly_loop e dataset_dir q skip_matches
                                      (List.enumerate 0 retrieved) onfly_init)\<rparr>,
              match_times = match_times st @
                times (onfly_loop e dataset_dir q skip_matches (List.enumerate 0 retrieved)
                         onfly_init)\<rparr> \<and>
         (distinct (map fst rd) \<and> (q, retrieved) \<in> set rd \<and>
          localize_with_matcher e dataset_dir rd rthres skip_matches = Inr (lines, lg) \<longrightarrow>
            loc lg q = Some None \<and>
            (\<exists>ps'. ps' q = None \<and>
               lines = write_poses (filter (\<lambda>x. x \<noteq> q) (map fst rd)) ps'))"
proof (intro conjI impI)
  show a: "pose_from_cluster_onfly_matching (e\<lparr>solver := sv\<rparr>) dataset_dir q retrieved ps rthres
           skip_matches =
         Inr (None,
              failed (onfly_loop e dataset_dir q skip_matches (List.enumerate 0 retrieved) onfly_init),
              times (onfly_loop e dataset_dir q skip_matches (List.enumerate 0 retrieved) onfly_init),
              ps)" for sv ps
    by (rule onfly_no_matches[OF assms])
  from a[of "solver e" "run_poses st"]
  show "onfly_queries e dataset_dir rthres skip_matches ((q, retrieved) # rest) st =
           onfly_queries e dataset_dir rthres skip_matches rest
             \<lparr>run_poses = run_poses st,
              run_logs = \<lparr>loc = (loc (run_logs st))(q \<mapsto> None),
                          failed_pairs = failed_pairs (run_logs st) @
                            failed (onfly_loop e dataset_dir q skip_matches
                                      (List.enumerate 0 retrieved) onfly_init)\<rparr>,
              match_times = match_times st @
                times (onfly_loop e dataset_dir q skip_matches (List.enumerate 0 retrieved)
                         onfly_init)\<rparr>"
    by simp
next
  assume h: "distinct (map fst rd) \<and> (q, retrieved) \<in> set rd \<and>
          localize_with_matcher e dataset_dir rd rthres skip_matches = Inr (lines, lg)"
  then obtain st' where r: "onfly_queries e dataset_dir rthres skip_matches rd run_init = Inr st'"
      and l: "lines = write_poses (map fst rd) (run_poses st')" and g: "lg = run_logs st'"
    by (auto simp: localize_with_matcher_def split: sum.splits)
  from h have d: "distinct (map fst rd)" and m: "(q, retrieved) \<in> set rd" by blast+
  from onfly_queries_unlocalized[OF r d m assms(2)]
  have p: "run_poses st' q = None" and u: "loc (run_logs st') q = Some None"
    by (simp_all add: run_init_def)
  from u g show "loc lg q = Some None" by simp
  from p l write_poses_skip[of "run_poses st'" q "map fst rd"]
  show "\<exists>ps'. ps' q = None \<and> lines = write_poses (filter (\<lambda>x. x \<noteq> q) (map fst rd)) ps'"
    by auto
qed


theorem no_matches_no_pose_witness:
  "imread ex_env2 (path_join ex_dir ex_q) = Some (4, 6) \<and>
   num_matches (onfly_loop ex_env2 ex_dir ex_q 1 (List.enumerate 0 [ex_missing]) onfly_init) = 0 \<and>
   pose_from_cluster_onfly_matching
     (ex_env2\<lparr>solver := raising_solver\<rparr>)
     ex_dir ex_q [ex_missing] Map.empty (Fin 48) 1 =
     Inr (None, [(ex_q, ex_missing)], [Fin 0], Map.empty) \<and>
   (\<exists>lg. localize_with_matcher ex_env2 ex_dir [(ex_q, [ex_missing]), (ex_q2, [ex_r])] (Fin 48) 1 =
           Inr ([(''IMG_0732.JPG'', [Fin 1, Fin 0, Fin 0, Fin 0], [Fin 0, Fin 0, Fin 0])], lg) \<and>
         loc lg ex_q = Some None)"
proof -
  have n: "num_matches (onfly_loop ex_env2 ex_dir ex_q 1 (List.enumerate 0 [ex_missing]) onfly_init) = 0"
    unfolding ex2_loop_nothing by simp
  note t = no_matches_no_pose [OF ex2_imread n,
      where sv = raising_solver and ps = Map.empty
      and rthres = "Fin 48" and rd = "[(ex_q, [ex_missing]), (ex_q2, [ex_r])]"]
  from t have a: "pose_from_cluster_onfly_matching
     (ex_env2\<lparr>solver := raising_solver\<rparr>)
     ex_dir ex_q [ex_missing] Map.empty (Fin 48) 1 =
     Inr (None, [(ex_q, ex_missing)], [Fin 0], Map.empty)"
    unfolding ex2_loop_nothing by simp
  have d: "distinct (map fst [(ex_q, [ex_missing]), (ex_q2, [ex_r])])"
    using ex_q_ne by simp
  have m: "(ex_q, [ex_missing]) \<in> set [(ex_q, [ex_missing]), (ex_q2, [ex_r])]" by simp
  from t d m ex2_run have "\<exists>lg. localize_with_matcher ex_env2 ex_dir
        [(ex_q, [ex_missing]), (ex_q2, [ex_r])] (Fin 48) 1 =
           Inr ([(''IMG_0732.JPG'', [Fin 1, Fin 0, Fin 0, Fin 0], [Fin 0, Fin 0, Fin 0])], lg) \<and>
         loc lg ex_q = Some None"
    by blast
  with ex2_imread n a show ?thesis by blast
qed

lemma hole_interpolate:
  "interpolate_scan flat_sampler hole_scan [(Fin 1, Fin 1)] = Inr ([[NaN, NaN, NaN]], [False])"
  by (simp add: interpolate_scan_def Let_def normalize_kp_def norm_coord_def fl_sub_def
      in_bounds_def grid_rows_def flat_sampler_def hole_scan_def where_nan_def upt_rec)

lemma hole_transform:
  "transform_points identity_pose [[NaN, NaN, NaN]] = Inr [[NaN, NaN, NaN]]"
  by (simp add: transform_points_def rot_block_def trans_col_def identity_pose_def dot3)

lemma hole_lift:
  "lift_to_3d ex_env_hole ex_dir ex_r [(Fin 1, Fin 1)] = Inr ([[NaN, NaN, NaN]], [False])"
proof -
  have l: "loadmat ex_env_hole p = Inr hole_scan" for p by (simp add: ex_env_hole_def)
  have g: "grid_sample ex_env_hole = flat_sampler" by (simp add: ex_env_hole_def ex_env_def)
  have p: "get_scan_pose ex_env_hole ex_dir ex_r = Inr identity_pose"
    using get_scan_pose_cong[of ex_env_hole ex_env ex_dir ex_r] ex_scan_pose
    by (simp add: ex_env_hole_def)
  show ?thesis by (simp add: lift_to_3d_def l g hole_interpolate p hole_transform)
qed

lemma hole_loop:
  "onfly_loop ex_env_hole ex_dir q 1 (List.enumerate 0 [ex_r]) onfly_init =
     \<lparr>all_mkpq = [[]], all_mkpr = [[]], all_mkp3d = [[]], all_indices = [[]], num_matches = 1,
      times = [Fin 0], failed = []\<rparr>"
proof -
  have m: "matcher ex_env_hole a b = Inr [((Fin 1, Fin 1), (Fin 1, Fin 1))]" for a b
    by (simp add: ex_env_hole_def ex_env_def)
  have t: "elapsed ex_env_hole a b = Fin 0" for a b by (simp add: ex_env_hole_def ex_env_def)
  show ?thesis
    by (simp add: onfly_view_def m t onfly_try_def hole_lift onfly_init_def append_view_def
        mask_def count_nonzero_def Let_def)
qed

lemma hole_imread: "imread ex_env_hole p = Some (4, 6)"
  by (simp add: ex_env_hole_def ex_env_def)

lemma hole_query: "pose_from_cluster_onfly_matching ex_env_hole ex_dir q [ex_r] ps (Fin 48) 1 = Inl KeyError"
proof -
  have s: "solver ex_env_hole = ex_solver" by (simp add: ex_env_hole_def ex_env_def)
  show ?thesis
    unfolding pose_from_cluster_onfly_matching_def hole_loop hole_imread s
    by (simp add: ex_solver_def Let_def)
qed

lemma hole_query_raising:
  "pose_from_cluster_onfly_matching
     (ex_env_hole\<lparr>solver := raising_solver\<rparr>)
     ex_dir ex_q [ex_r] Map.empty (Fin 48) 1 = Inl (Raised ''solver called'')"
  unfolding pose_from_cluster_onfly_matching_def onfly_loop_solver hole_loop
  by (simp add: hole_imread raising_solver_def Let_def)

lemma ex_skipped_loop:
  "cluster_loop ex_env ex_dir q [(Fin 1, Fin 1)] (Some 2) [(0, ex_r)] agg_init = Inr agg_init"
proof -
  have f: "feature_file ex_env n = Some [(Fin 1, Fin 1)]" for n by (simp add: ex_env_def)
  have m: "match_file ex_env n = Some [0]" for n by (simp add: ex_env_def)
  show ?thesis
    by (simp add: cluster_view_def f m skip_view_def count_nonzero_def Let_def)
qed

lemma ex_skipped_query: "pose_from_cluster ex_env ex_dir q [ex_r] (Some 2) = Inl ValueError"
proof -
  have i: "imread ex_env p = Some (4, 6)" for p by (simp add: ex_env_def)
  have f: "feature_file ex_env n = Some [(Fin 1, Fin 1)]" for n by (simp add: ex_env_def)
  have n: "all_mkpq agg_init = []" by (simp add: agg_init_def)
  show ?thesis
    unfolding pose_from_cluster_def i f
    by (simp add: ex_skipped_loop np_concatenate_def n del: cluster_loop.simps)
qed

text \<open>
  A query with one match whose reference pixel has no depth: the aggregate holds no
  correspondence, yet the solver is called (a solver that raises on every call makes the
  call raise), and with a solver that returns no pose for no correspondence the lookup of
  \<^verbatim>\<open>ret['qvec']\<close> raises and ends the run before the next query. With precomputed matches
  and every view skipped, \<^verbatim>\<open>np.concatenate\<close> raises and ends the run.
\<close>

theorem zero_valid_counterexample:
  "concat (all_mkpq (onfly_loop ex_env_hole ex_dir ex_q 1 (List.enumerate 0 [ex_r]) onfly_init)) = [] \<and>
   pose_from_cluster_onfly_matching
     (ex_env_hole\<lparr>solver := raising_solver\<rparr>)
     ex_dir ex_q [ex_r] Map.empty (Fin 48) 1 = Inl (Raised ''solver called'') \<and>
   localize_with_matcher ex_env_hole ex_dir [(ex_q, [ex_r]), (ex_q2, [ex_r])] (Fin 48) 1 =
     Inl KeyError \<and>
   main ex_env ex_dir [(ex_q, [ex_r]), (ex_q2, [ex_r])] (Some 2) = Inl ValueError"
proof -
  have a: "concat (all_mkpq (onfly_loop ex_env_hole ex_dir ex_q 1 (List.enumerate 0 [ex_r]) onfly_init)) = []"
    unfolding hole_loop by simp
  have c: "localize_with_matcher ex_env_hole ex_dir [(ex_q, [ex_r]), (ex_q2, [ex_r])] (Fin 48) 1 =
     Inl KeyError"
    by (simp add: localize_with_matcher_def hole_query)
  have d: "main ex_env ex_dir [(ex_q, [ex_r]), (ex_q2, [ex_r])] (Some 2) = Inl ValueError"
    by (simp add: main_def ex_skipped_query)
  from a hole_query_raising c d show ?thesis by blast
qed

section \<open>A solver that produces no pose\<close>

lemma onfly_solver_fails:
  assumes "imread e (path_join dataset_dir q) = Some (h, w)"
      and "num_matches (onfly_loop e dataset_dir q skip_matches (List.enumerate 0 retrieved) onfly_init) \<noteq> 0"
      and "no_pose (solver e
             (concat (all_mkpq (onfly_loop e dataset_dir q skip_matches (List.enumerate 0 retrieved) onfly_init)))
             (concat (all_mkp3d (onfly_loop e dataset_dir q skip_matches (List.enumerate 0 retrieved) onfly_init)))
             (camera_cfg h w) rthres) err"
  shows "pose_from_cluster_onfly_matching e dataset_dir q retrieved ps rthres skip_matches = Inl err"
  using assms
  by (auto simp: pose_from_cluster_onfly_matching_def no_pose_def Let_def
      split: sum.splits option.splits)

lemma onfly_queries_abort:
  assumes "onfly_queries e dataset_dir rthres skip_matches pre st0 = Inr st"
      and "pose_from_cluster_onfly_matching e dataset_dir q retrieved (run_poses st) rthres
             skip_matches = Inl err"
  shows "onfly_queries e dataset_dir rthres skip_matches (pre @ (q, retrieved) # rest) st0 = Inl err"
  using assms
proof (induction pre arbitrary: st0)
  case Nil
  then show ?case by simp
next
  case (Cons a pre)
  obtain q' r' where a: "a = (q', r')" by (cases a)
  from Cons.prems(1) obtain res fs ts ps' where
      p: "pose_from_cluster_onfly_matching e dataset_dir q' r' (run_poses st0) rthres
            skip_matches = Inr (res, fs, ts, ps')"
      and r: "onfly_queries e dataset_dir rthres skip_matches pre
            \<lparr>run_poses = ps',
             run_logs = \<lparr>loc = (loc (run_logs st0))(q' \<mapsto> res),
                         failed_pairs = failed_pairs (run_logs st0) @ fs\<rparr>,
             match_times = match_times st0 @ ts\<rparr> = Inr st"
    unfolding a by (auto split: sum.splits prod.splits)
  from Cons.IH[OF r Cons.prems(2)] p show ?case by (simp add: a)
qed

lemma cluster_solver_fails:
  assumes "imread e (path_join dataset_dir q) = Some (h, w)"
      and "feature_file e q = Some kpq"
      and "cluster_loop e dataset_dir q kpq skip (List.enumerate 0 retrieved) agg_init = Inr a"
      and "all_mkpq a \<noteq> []"
      and "no_pose (solver e (concat (all_mkpq a)) (concat (all_mkp3d a)) (camera_cfg h w) (Fin 48)) err"
  shows "main_queries e dataset_dir skip ((q, retrieved) # rest) st = Inl err"
  using assms
  by (auto simp: pose_from_cluster_def np_concatenate_def no_pose_def Let_def
      split: sum.splits option.splits)

lemma main_queries_abort:
  assumes "main_queries e dataset_dir skip pre st0 = Inr st"
      and "\<And>st. main_queries e dataset_dir skip ((q, retrieved) # rest) st = Inl err"
  shows "main_queries e dataset_dir skip (pre @ (q, retrieved) # rest) st0 = Inl err"
  using assms(1)
proof (induction pre arbitrary: st0)
  case Nil
  then show ?case using assms(2) by simp
next
  case (Cons a pre)
  obtain q' r' where a: "a = (q', r')" by (cases a)
  from Cons.prems show ?case
    unfolding a using Cons.IH
    by (auto split: sum.splits prod.splits option.splits)
qed

text \<open>
  C5, as the code has it. When the correspondences of a query reach the solver and the
  solver produces no pose, the exception leaves the aggregator as it is (one call, no
  retry) and, no caller catching it, ends the run: the orchestrator of either mode returns
  that exception, whatever queries were to follow, and writes neither pose table nor log.
\<close>

theorem solver_failure_ends_run:
  "(onfly_queries e dataset_dir rthres skip_matches pre run_init = Inr st \<and>
    imread e (path_join dataset_dir q) = Some (h, w) \<and>
    num_matches (onfly_loop e dataset_dir q skip_matches (List.enumerate 0 retrieved) onfly_init) \<noteq> 0 \<and>
    no_pose (solver e
       (concat (all_mkpq (onfly_loop e dataset_dir q skip_matches (List.enumerate 0 retrieved) onfly_init)))
       (concat (all_mkp3d (onfly_loop e dataset_dir q skip_matches (List.enumerate 0 retrieved) onfly_init)))
       (camera_cfg h w) rthres) err \<longrightarrow>
      pose_from_cluster_onfly_matching e dataset_dir q retrieved ps rthres skip_matches = Inl err \<and>
      localize_with_matcher e dataset_dir (pre @ (q, retrieved) # rest) rthres skip_matches = Inl err) \<and>
   (main_queries e dataset_dir skip pre run_init = Inr st_main \<and>
    imread e (path_join dataset_dir q) = Some (h, w) \<and> feature_file e q = Some kpq \<and>
    cluster_loop e dataset_dir q kpq skip (List.enumerate 0 retrieved) agg_init = Inr a \<and>
    all_mkpq a \<noteq> [] \<and>
    no_pose (solver e (concat (all_mkpq a)) (concat (all_mkp3d a)) (camera_cfg h w) (Fin 48)) err \<longrightarrow>
      main e dataset_dir (pre @ (q, retrieved) # rest) skip = Inl err)"
proof (intro conjI impI)
  assume h: "onfly_queries e dataset_dir rthres skip_matches pre run_init = Inr st \<and>
    imread e (path_join dataset_dir q) = Some (h, w) \<and>
    num_matches (onfly_loop e dataset_dir q skip_matches (List.enumerate 0 retrieved) onfly_init) \<noteq> 0 \<and>
    no_pose (solver e
       (concat (all_mkpq (onfly_loop e dataset_dir q skip_matches (List.enumerate 0 retrieved) onfly_init)))
       (concat (all_mkp3d (onfly_loop e dataset_dir q skip_matches (List.enumerate 0 retrieved) onfly_init)))
       (camera_cfg h w) rthres) err"
  then have f: "pose_from_cluster_onfly_matching e dataset_dir q retrieved ps' rthres skip_matches = Inl err"
    for ps'
    using onfly_solver_fails by blast
  from f show "pose_from_cluster_onfly_matching e dataset_dir q retrieved ps rthres skip_matches = Inl err" .
  from h have p: "onfly_queries e dataset_dir rthres skip_matches pre run_init = Inr st" by blast
  from onfly_queries_abort[OF p f]
  show "localize_with_matcher e dataset_dir (pre @ (q, retrieved) # rest) rthres skip_matches = Inl err"
    by (simp add: localize_with_matcher_def)
next
  assume h: "main_queries e dataset_dir skip pre run_init = Inr st_main \<and>
    imread e (path_join dataset_dir q) = Some (h, w) \<and> feature_file e q = Some kpq \<and>
    cluster_loop e dataset_dir q kpq skip (List.enumerate 0 retrieved) agg_init = Inr a \<and>
    all_mkpq a \<noteq> [] \<and>
    no_pose (solver e (concat (all_mkpq a)) (concat (all_mkp3d a)) (camera_cfg h w) (Fin 48)) err"
  then have f: "main_queries e dataset_dir skip ((q, retrieved) # rest) st' = Inl err" for st'
    using cluster_solver_fails by blast
  from h have p: "main_queries e dataset_dir skip pre run_init = Inr st_main" by blast
  from main_queries_abort[OF p f]
  show "main e dataset_dir (pre @ (q, retrieved) # rest) skip = Inl err"
    by (simp add: main_def)
qed


lemma fail_lift:
  "lift_to_3d ex_env_fail ex_dir ex_r [(Fin 1, Fin 1)] = Inr ([[Fin 2, Fin 2, Fin 2]], [True])"
  using lift_to_3d_cong[of ex_env_fail ex_env ex_dir ex_r "[(Fin 1, Fin 1)]"] ex_lift
  by (simp add: ex_env_fail_def)

lemma fail_matcher:
  "matcher ex_env_fail (path_join ex_dir ex_q) b = Inr [((Fin 1, Fin 1), (Fin 1, Fin 1))]"
  "matcher ex_env_fail (path_join ex_dir ex_q2) b = Inr [((Fin 2, Fin 2), (Fin 1, Fin 1))]"
  by (simp_all add: ex_env_fail_def path_join_def ex_dir_def ex_q_def ex_q2_def)

lemma fail_elapsed: "elapsed ex_env_fail a b = Fin 0"
  by (simp add: ex_env_fail_def ex_env_def)

lemma fail_imread: "imread ex_env_fail p = Some (4, 6)"
  by (simp add: ex_env_fail_def ex_env_def)

lemma fail_loop1:
  "onfly_loop ex_env_fail ex_dir ex_q 1 (List.enumerate 0 [ex_r]) onfly_init =
     \<lparr>all_mkpq = [[(Fin 1, Fin 1)]], all_mkpr = [[(Fin 1, Fin 1)]],
      all_mkp3d = [[[Fin 2, Fin 2, Fin 2]]], all_indices = [[0]], num_matches = 1,
      times = [Fin 0], failed = []\<rparr>"
  by (simp add: onfly_view_def fail_matcher fail_elapsed onfly_try_def fail_lift onfly_init_def
      append_view_def mask_def count_nonzero_def Let_def)

lemma fail_loop2:
  "onfly_loop ex_env_fail ex_dir ex_q2 1 (List.enumerate 0 [ex_r]) onfly_init =
     \<lparr>all_mkpq = [[(Fin 2, Fin 2)]], all_mkpr = [[(Fin 1, Fin 1)]],
      all_mkp3d = [[[Fin 2, Fin 2, Fin 2]]], all_indices = [[0]], num_matches = 1,
      times = [Fin 0], failed = []\<rparr>"
  by (simp add: onfly_view_def fail_matcher fail_elapsed onfly_try_def fail_lift onfly_init_def
      append_view_def mask_def count_nonzero_def Let_def)

lemma fail_solver:
  "solver ex_env_fail [(Fin 1, Fin 1)] mkp3d c thr = Inl (Raised ''PoseSolverFailure'')"
  "solver ex_env_fail [(Fin 2, Fin 2)] mkp3d c thr =
     Inr \<lparr>qvec = Some [Fin 1, Fin 0, Fin 0, Fin 0], tvec = Some [Fin 0, Fin 0, Fin 0],
          inliers = [True], cfg = None\<rparr>"
  by (simp_all add: ex_env_fail_def ex_solver_def)

lemma fail_query1:
  "pose_from_cluster_onfly_matching ex_env_fail ex_dir ex_q [ex_r] ps (Fin 48) 1 =
     Inl (Raised ''PoseSolverFailure'')"
  unfolding pose_from_cluster_onfly_matching_def fail_loop1 fail_imread
  by (simp add: fail_solver Let_def)

lemma fail_query2:
  "pose_from_cluster_onfly_matching ex_env_fail ex_dir ex_q2 [ex_r] ps (Fin 48) 1 =
     Inr (Some \<lparr>db = [ex_r],
                PnP_ret = \<lparr>qvec = Some [Fin 1, Fin 0, Fin 0, Fin 0],
                           tvec = Some [Fin 0, Fin 0, Fin 0], inliers = [True],
                           cfg = Some (camera_cfg 4 6)\<rparr>,
                keypoints_query = [(Fin 2, Fin 2)], keypoints_db = [(Fin 1, Fin 1)],
                points_3d = [[Fin 2, Fin 2, Fin 2]], indices_db = [0], n_matches = 1\<rparr>,
          [], [Fin 0],
          ps(ex_q2 \<mapsto> ([Fin 1, Fin 0, Fin 0, Fin 0], [Fin 0, Fin 0, Fin 0])))"
  unfolding pose_from_cluster_onfly_matching_def fail_loop2 fail_imread
  by (simp add: fail_solver Let_def)

lemma fail_cluster_loop0:
  "cluster_loop ex_env_fail ex_dir q [(Fin 1, Fin 1)] (Some 1) [(0, ex_r)] agg_init =
     Inr \<lparr>all_mkpq = [[(Fin 1, Fin 1)]], all_mkpr = [[(Fin 1, Fin 1)]],
          all_mkp3d = [[[Fin 2, Fin 2, Fin 2]]], all_indices = [[0]], num_matches = 1\<rparr>"
proof -
  have f: "feature_file ex_env_fail n = Some [(Fin 1, Fin 1)]" for n
    by (simp add: ex_env_fail_def ex_env_def)
  have m: "match_file ex_env_fail n = Some [0]" for n by (simp add: ex_env_fail_def ex_env_def)
  show ?thesis
    by (simp add: cluster_view_def f m skip_view_def bool_index_def int_index_def fail_lift
        agg_init_def append_view_def mask_def count_nonzero_def Let_def)
qed

lemma fail_cluster_loop:
  "cluster_loop ex_env_fail ex_dir q [(Fin 1, Fin 1)] (Some 1) (List.enumerate 0 [ex_r]) agg_init =
     Inr \<lparr>all_mkpq = [[(Fin 1, Fin 1)]], all_mkpr = [[(Fin 1, Fin 1)]],
          all_mkp3d = [[[Fin 2, Fin 2, Fin 2]]], all_indices = [[0]], num_matches = 1\<rparr>"
  using fail_cluster_loop0 by (simp del: cluster_loop.simps)

lemma fail_feature: "feature_file ex_env_fail n = Some [(Fin 1, Fin 1)]"
  by (simp add: ex_env_fail_def ex_env_def)

theorem solver_failure_ends_run_witness:
  "no_pose (solver ex_env_fail [(Fin 1, Fin 1)] [[Fin 2, Fin 2, Fin 2]] (camera_cfg 4 6) (Fin 48))
     (Raised ''PoseSolverFailure'') \<and>
   pose_from_cluster_onfly_matching ex_env_fail ex_dir ex_q [ex_r] Map.empty (Fin 48) 1 =
     Inl (Raised ''PoseSolverFailure'') \<and>
   localize_with_matcher ex_env_fail ex_dir ([] @ (ex_q, [ex_r]) # [(ex_q2, [ex_r])]) (Fin 48) 1 =
     Inl (Raised ''PoseSolverFailure'') \<and>
   main ex_env_fail ex_dir ([] @ (ex_q, [ex_r]) # [(ex_q2, [ex_r])]) (Some 1) =
     Inl (Raised ''PoseSolverFailure'')"
proof -
  let ?a = "\<lparr>all_mkpq = [[(Fin 1, Fin 1)]], all_mkpr = [[(Fin 1, Fin 1)]],
          all_mkp3d = [[[Fin 2, Fin 2, Fin 2]]], all_indices = [[0]], num_matches = 1\<rparr>"
  note t = solver_failure_ends_run [where e = ex_env_fail and dataset_dir = ex_dir
      and rthres = "Fin 48" and skip_matches = 1 and pre = "[]" and st = run_init
      and st_main = run_init and q = ex_q and h = 4 and w = 6 and retrieved = "[ex_r]"
      and err = "Raised ''PoseSolverFailure''" and ps = Map.empty
      and rest = "[(ex_q2, [ex_r])]" and skip = "Some 1" and kpq = "[(Fin 1, Fin 1)]"
      and a = ?a]
  have n: "no_pose (solver ex_env_fail [(Fin 1, Fin 1)] [[Fin 2, Fin 2, Fin 2]] (camera_cfg 4 6) (Fin 48))
     (Raised ''PoseSolverFailure'')"
    by (simp add: no_pose_def fail_solver)
  have o: "onfly_queries ex_env_fail ex_dir (Fin 48) 1 [] run_init = Inr run_init" by simp
  have m: "main_queries ex_env_fail ex_dir (Some 1) [] run_init = Inr run_init" by simp
  have c1: "num_matches (onfly_loop ex_env_fail ex_dir ex_q 1 (List.enumerate 0 [ex_r]) onfly_init) \<noteq> 0"
    unfolding fail_loop1 by simp
  have c2: "concat (all_mkpq (onfly_loop ex_env_fail ex_dir ex_q 1 (List.enumerate 0 [ex_r]) onfly_init)) =
      [(Fin 1, Fin 1)]"
    "concat (all_mkp3d (onfly_loop ex_env_fail ex_dir ex_q 1 (List.enumerate 0 [ex_r]) onfly_init)) =
      [[Fin 2, Fin 2, Fin 2]]"
    unfolding fail_loop1 by simp_all
  have c3: "all_mkpq ?a \<noteq> []" "concat (all_mkpq ?a) = [(Fin 1, Fin 1)]"
    "concat (all_mkp3d ?a) = [[Fin 2, Fin 2, Fin 2]]"
    by simp_all
  from t o fail_imread c1 n
  have A: "pose_from_cluster_onfly_matching ex_env_fail ex_dir ex_q [ex_r] Map.empty (Fin 48) 1 =
       Inl (Raised ''PoseSolverFailure'') \<and>
     localize_with_matcher ex_env_fail ex_dir ([] @ (ex_q, [ex_r]) # [(ex_q2, [ex_r])]) (Fin 48) 1 =
       Inl (Raised ''PoseSolverFailure'')"
    unfolding c2 by blast
  from t m fail_imread fail_feature fail_cluster_loop c3(1) n
  have B: "main ex_env_fail ex_dir ([] @ (ex_q, [ex_r]) # [(ex_q2, [ex_r])]) (Some 1) =
       Inl (Raised ''PoseSolverFailure'')"
    unfolding c3(2,3) by blast
  from n A B show ?thesis by blast
qed

text \<open>
  The second query alone is localized and gets its line. With the first query before it,
  whose correspondences the solver rejects, the run of either orchestrator ends with the
  solver's exception: nothing is recorded for the first query, the second is never
  reached, and nothing is written.
\<close>

theorem solver_failure_counterexample:
  "map_sum id fst (localize_with_matcher ex_env_fail ex_dir [(ex_q2, [ex_r])] (Fin 48) 1) =
     Inr [(''IMG_0732.JPG'', [Fin 1, Fin 0, Fin 0, Fin 0], [Fin 0, Fin 0, Fin 0])] \<and>
   localize_with_matcher ex_env_fail ex_dir [(ex_q, [ex_r]), (ex_q2, [ex_r])] (Fin 48) 1 =
     Inl (Raised ''PoseSolverFailure'') \<and>
   main ex_env_fail ex_dir [(ex_q, [ex_r]), (ex_q2, [ex_r])] (Some 1) =
     Inl (Raised ''PoseSolverFailure'')"
proof -
  have a: "map_sum id fst (localize_with_matcher ex_env_fail ex_dir [(ex_q2, [ex_r])] (Fin 48) 1) =
     Inr [(''IMG_0732.JPG'', [Fin 1, Fin 0, Fin 0, Fin 0], [Fin 0, Fin 0, Fin 0])]"
    by (simp add: localize_with_matcher_def run_init_def fail_query2 write_poses_def ex_basename2)
  have b: "localize_with_matcher ex_env_fail ex_dir [(ex_q, [ex_r]), (ex_q2, [ex_r])] (Fin 48) 1 =
     Inl (Raised ''PoseSolverFailure'')"
    by (simp add: localize_with_matcher_def fail_query1)
  have p: "pose_from_cluster ex_env_fail ex_dir ex_q [ex_r] (Some 1) = Inl (Raised ''PoseSolverFailure'')"
    unfolding pose_from_cluster_def fail_imread fail_feature
    by (simp add: fail_cluster_loop0 np_concatenate_def fail_solver Let_def del: cluster_loop.simps)
  have c: "main ex_env_fail ex_dir [(ex_q, [ex_r]), (ex_q2, [ex_r])] (Some 1) =
     Inl (Raised ''PoseSolverFailure'')"
    by (simp add: main_def p)
  from a b c show ?thesis by blast
qed

end
